theory Spec2Isabelle
  imports
    Complex_Main
    "HOL-Library.AList"
    "HOL-Library.Char_ord"
    "HOL-Library.List_Lexorder"
    "HOL-Library.Product_Lexorder"
begin

section \<open>Strings and scalar values\<close>

text \<open>
  Strings are ASCII character lists. Python's \<^verbatim>\<open>str.lower\<close>, \<^verbatim>\<open>str.strip\<close>, the regular
  expression classes \<^verbatim>\<open>\d\<close> and \<^verbatim>\<open>\s\<close> and the builtin \<^verbatim>\<open>float\<close> are modelled on
  ASCII text; their behaviour on other code points is outside this development.
  Amounts are Python floats; they are modelled as exact rationals.
\<close>

definition is_digit :: "char \<Rightarrow> bool" where
  "is_digit c = (c \<in> set ''0123456789'')"

text \<open>Whitespace as \<^verbatim>\<open>str.isspace\<close> and \<^verbatim>\<open>\s\<close> see it below code point 128:
  TAB, LF, VT, FF, CR, the separators 0x1C to 0x1F, and the blank.\<close>

definition is_space :: "char \<Rightarrow> bool" where
  "is_space c = ((of_char c :: nat) \<in> {9, 10, 11, 12, 13, 28, 29, 30, 31, 32})"

definition lower_char :: "char \<Rightarrow> char" where
  "lower_char c =
     (case map_of (zip ''ABCDEFGHIJKLMNOPQRSTUVWXYZ'' ''abcdefghijklmnopqrstuvwxyz'') c of
        Some l \<Rightarrow> l
      | None \<Rightarrow> c)"

definition lower :: "string \<Rightarrow> string" where
  "lower s = map lower_char s"

definition strip :: "string \<Rightarrow> string" where
  "strip s = rev (dropWhile is_space (rev (dropWhile is_space s)))"

text \<open>\<^verbatim>\<open>needle in haystack\<close> on strings.\<close>

fun contains :: "string \<Rightarrow> string \<Rightarrow> bool" where
  "contains needle [] = (needle = [])"
| "contains needle (c # cs) =
     (take (length needle) (c # cs) = needle \<or> contains needle cs)"

subsection \<open>Decimal rendering and parsing\<close>

definition digit_char :: "nat \<Rightarrow> char" where
  "digit_char d = ''0123456789'' ! d"

definition digit_val :: "char \<Rightarrow> nat" where
  "digit_val c = of_char c - 48"

function str_nat :: "nat \<Rightarrow> string" where
  "str_nat n = (if n < 10 then [digit_char n] else str_nat (n div 10) @ [digit_char (n mod 10)])"
  by pat_completeness auto
termination
  by (relation "measure id") auto

declare str_nat.simps [simp del]

text \<open>\<^verbatim>\<open>str(i)\<close> for a Python int.\<close>

definition str_int :: "int \<Rightarrow> string" where
  "str_int i = (if i < 0 then CHR ''-'' # str_nat (nat (- i)) else str_nat (nat i))"

definition nat_of_digits :: "string \<Rightarrow> nat" where
  "nat_of_digits ds = foldl (\<lambda>acc c. 10 * acc + digit_val c) 0 ds"

datatype exn = KeyError | IndexError | ValueError | TypeError

text \<open>
  The decimal branch of \<^verbatim>\<open>float(s)\<close>: an optional sign, digits with an optional
  point (at least one digit in all), an optional exponent \<^verbatim>\<open>e\<close> or \<^verbatim>\<open>E\<close> with an
  optional sign and at least one digit, and nothing after it. Anything else raises
  \<^verbatim>\<open>ValueError\<close>. The value is exact.
\<close>

definition split_sign :: "string \<Rightarrow> bool \<times> string" where
  "split_sign s =
     (case s of
        [] \<Rightarrow> (False, [])
      | c # r \<Rightarrow> if c = CHR ''-'' then (True, r)
                 else if c = CHR ''+'' then (False, r) else (False, s))"

definition pow10 :: "int \<Rightarrow> rat" where
  "pow10 e = (if 0 \<le> e then of_nat (10 ^ nat e) else 1 / of_nat (10 ^ nat (- e)))"

definition mk_decimal :: "bool \<Rightarrow> string \<Rightarrow> string \<Rightarrow> int \<Rightarrow> rat" where
  "mk_decimal neg ip fp e =
     (let m = of_nat (nat_of_digits (ip @ fp)) * pow10 (e - int (length fp))
      in if neg then - m else m)"

definition parse_decimal :: "string \<Rightarrow> exn + rat" where
  "parse_decimal s =
     (let (neg, s1) = split_sign s;
          ip = takeWhile is_digit s1;
          s2 = dropWhile is_digit s1;
          (fp, s3) = (case s2 of
                        [] \<Rightarrow> ([], [])
                      | c # r \<Rightarrow> if c = CHR ''.''
                                 then (takeWhile is_digit r, dropWhile is_digit r)
                                 else ([], s2))
      in if ip @ fp = [] then Inl ValueError
         else (case s3 of
                 [] \<Rightarrow> Inr (mk_decimal neg ip fp 0)
               | c # r \<Rightarrow>
                   if c = CHR ''e'' \<or> c = CHR ''E''
                   then (let (eneg, r1) = split_sign r;
                             ed = takeWhile is_digit r1
                         in if ed = [] \<or> dropWhile is_digit r1 \<noteq> [] then Inl ValueError
                            else Inr (mk_decimal neg ip fp
                                       (if eneg then - int (nat_of_digits ed)
                                        else int (nat_of_digits ed))))
                   else Inl ValueError))"

section \<open>Cells and value sanitization\<close>

text \<open>
  A raw cell of an uploaded sheet is missing (pandas' NaN), a text, or an integer.
\<close>

datatype cell = NaN | Str string | Num int

definition isna :: "cell \<Rightarrow> bool" where
  "isna c = (c = NaN)"

text \<open>\<^verbatim>\<open>str(x)\<close> on a cell.\<close>

fun py_str :: "cell \<Rightarrow> string" where
  "py_str NaN = ''nan''"
| "py_str (Str s) = s"
| "py_str (Num i) = str_int i"

text \<open>The characters that \<^verbatim>\<open>re.sub(r'[^\d.-]', '', s)\<close> keeps.\<close>

definition amount_char :: "char \<Rightarrow> bool" where
  "amount_char c = (is_digit c \<or> c = CHR ''.'' \<or> c = CHR ''-'')"

text \<open>
  \<^verbatim>\<open>clean_amount\<close>, the same in \<^verbatim>\<open>universal_processor.py\<close> and, nested, in
  \<^verbatim>\<open>excel_processor.py\<close>. The cleaned text holds digits, points and minus signs only,
  so of \<^verbatim>\<open>float\<close> only the decimal branch applies; the \<^verbatim>\<open>ValueError\<close> it raises is
  caught by the bare \<^verbatim>\<open>except\<close>.
\<close>

definition clean_amount :: "cell \<Rightarrow> rat option" where
  "clean_amount amount_str =
     (if isna amount_str then None
      else let cleaned = filter amount_char (py_str amount_str)
           in if cleaned = [] then None
              else (case parse_decimal cleaned of
                      Inl e \<Rightarrow> None
                    | Inr x \<Rightarrow> Some x))"


section \<open>Tables\<close>

text \<open>
  A table (a pandas DataFrame with the default row index) is its list of column labels
  and its rows, each a list of cells in column order; a row's index label is its
  position. Column labels of a table and of a category are taken to be pairwise
  distinct: a label is resolved to its first column.
\<close>

record frame =
  columns :: "string list"
  rows :: "cell list list"

text \<open>\<^verbatim>\<open>row[label]\<close>, raising \<^verbatim>\<open>KeyError\<close> for an unknown label.\<close>

definition get_cell :: "string list \<Rightarrow> cell list \<Rightarrow> string \<Rightarrow> exn + cell" where
  "get_cell cols row label =
     (case map_of (zip cols row) label of
        None \<Rightarrow> Inl KeyError
      | Some c \<Rightarrow> Inr c)"

text \<open>\<^verbatim>\<open>df[label] = values\<close>: replace the column, or append it as the last one.\<close>

definition set_column :: "frame \<Rightarrow> string \<Rightarrow> cell list \<Rightarrow> frame" where
  "set_column df label vals =
     (if label \<in> set (columns df)
      then df\<lparr>rows := map (\<lambda>(row, v). map (\<lambda>(c, x). if c = label then v else x)
                                             (zip (columns df) row))
                         (zip (rows df) vals)\<rparr>
      else \<lparr>columns = columns df @ [label],
            rows = map (\<lambda>(row, v). row @ [v]) (zip (rows df) vals)\<rparr>)"

section \<open>Week segmentation\<close>

text \<open>
  \<^verbatim>\<open>re.search(r'week\s*(\d+)', text)\<close>: the leftmost position where \<^verbatim>\<open>week\<close>,
  then any whitespace, then at least one digit can be read; the group is the longest
  run of digits there.
\<close>

definition week_match_at :: "string \<Rightarrow> string option" where
  "week_match_at s =
     (if take 4 s = ''week''
      then (let d = takeWhile is_digit (dropWhile is_space (drop 4 s))
            in if d = [] then None else Some d)
      else None)"

fun week_search :: "string \<Rightarrow> string option" where
  "week_search [] = None"
| "week_search (c # cs) =
     (case week_match_at (c # cs) of
        Some d \<Rightarrow> Some d
      | None \<Rightarrow> week_search cs)"

text \<open>The text of a marker cell: \<^verbatim>\<open>str(v).strip() if pd.notna(v) else ''\<close>.\<close>

definition broker_text :: "cell \<Rightarrow> string" where
  "broker_text v = (if \<not> isna v then strip (py_str v) else [])"

definition next_week :: "string \<Rightarrow> cell \<Rightarrow> string" where
  "next_week current_week v =
     (case week_search (lower (broker_text v)) of
        Some d \<Rightarrow> ''Week '' @ d
      | None \<Rightarrow> current_week)"

fun week_loop :: "string list \<Rightarrow> string \<Rightarrow> string \<Rightarrow> cell list list \<Rightarrow> exn + string list" where
  "week_loop cols broker_column current_week [] = Inr []"
| "week_loop cols broker_column current_week (row # rest) =
     (case get_cell cols row broker_column of
        Inl e \<Rightarrow> Inl e
      | Inr v \<Rightarrow>
          (let current_week' = next_week current_week v
           in case week_loop cols broker_column current_week' rest of
                Inl e \<Rightarrow> Inl e
              | Inr week_list \<Rightarrow> Inr (current_week' # week_list)))"

definition detect_week_markers :: "frame \<Rightarrow> string \<Rightarrow> exn + string list" where
  "detect_week_markers df broker_column =
     week_loop (columns df) broker_column ''Before Week 1'' (rows df)"

section \<open>Cleaning\<close>

text \<open>
  A row of the cleaned table: its index label in the raw table, the entity name, one
  sanitized amount per amount column, and the cell of the \<^verbatim>\<open>Week\<close> column once that
  column has been attached.
\<close>

record clean_row =
  r_idx :: nat
  r_entity :: string
  r_amounts :: "rat option list"
  r_week :: cell

text \<open>\<^verbatim>\<open>df[cols_to_keep]\<close>, row by row.\<close>

fun select_cells :: "string list \<Rightarrow> cell list \<Rightarrow> string list \<Rightarrow> exn + cell list" where
  "select_cells cols row [] = Inr []"
| "select_cells cols row (label # labels) =
     (case get_cell cols row label of
        Inl e \<Rightarrow> Inl e
      | Inr c \<Rightarrow> (case select_cells cols row labels of
                   Inl e \<Rightarrow> Inl e
                 | Inr cs \<Rightarrow> Inr (c # cs)))"

fun select_rows :: "string list \<Rightarrow> string list \<Rightarrow> nat \<Rightarrow> cell list list \<Rightarrow> exn + (nat \<times> cell list) list" where
  "select_rows cols labels i [] = Inr []"
| "select_rows cols labels i (row # rest) =
     (case select_cells cols row labels of
        Inl e \<Rightarrow> Inl e
      | Inr cs \<Rightarrow> (case select_rows cols labels (Suc i) rest of
                    Inl e \<Rightarrow> Inl e
                  | Inr rs \<Rightarrow> Inr ((i, cs) # rs)))"

text \<open>\<^verbatim>\<open>df[col] > 0\<close> on a sanitized column: a missing value compares false.\<close>

definition positive :: "rat option \<Rightarrow> bool" where
  "positive a = (case a of None \<Rightarrow> False | Some v \<Rightarrow> 0 < v)"

text \<open>The loop \<^verbatim>\<open>for col in amount_columns: df_clean = df_clean[df_clean[col] > 0]\<close>,
  over the positions of the amount columns.\<close>

fun positive_loop :: "nat list \<Rightarrow> (nat \<times> cell \<times> rat option list) list \<Rightarrow> (nat \<times> cell \<times> rat option list) list" where
  "positive_loop [] rs = rs"
| "positive_loop (j # js) rs =
     positive_loop js (filter (\<lambda>(i, e, as). j < length as \<and> positive (as ! j)) rs)"

definition clean_dataframe :: "frame \<Rightarrow> string \<Rightarrow> string list \<Rightarrow> exn + clean_row list" where
  "clean_dataframe df entity_column amount_columns =
     (if \<not> set (entity_column # amount_columns) \<subseteq> set (columns df) then Inl KeyError
      else case select_rows (columns df) (entity_column # amount_columns) 0 (rows df) of
        Inl e \<Rightarrow> Inl e
      | Inr selected \<Rightarrow>
          (let df1 = filter (\<lambda>(i, cs). \<not> list_all isna (tl cs)) selected;
               df2 = map (\<lambda>(i, cs). (i, hd cs, map clean_amount (tl cs))) df1;
               df3 = filter (\<lambda>(i, e, as). \<not> list_all (\<lambda>a. a = None) as) df2;
               df4 = positive_loop [0 ..< length amount_columns] df3;
               df5 = map (\<lambda>(i, e, as). (i, strip (py_str e), as)) df4;
               df6 = filter (\<lambda>(i, e, as). e \<noteq> ''nan'') df5;
               df7 = filter (\<lambda>(i, e, as). e \<noteq> []) df6
           in Inr (map (\<lambda>(i, e, as). \<lparr>r_idx = i, r_entity = e, r_amounts = as, r_week = NaN\<rparr>) df7)))"


section \<open>Categories, configuration and earnings\<close>

datatype calculation_method = PERCENTAGE | FLAT_RATE | SUM_ONLY | CUSTOM

datatype category_class = DispatcherAnalysis | DriverAnalysis | BrokerAnalysis

record category =
  category_class :: category_class
  name :: string
  entity_column :: string
  amount_columns :: "string list"
  grouping_columns :: "string list"
  calculation_method :: calculation_method

text \<open>
  The configuration handed to the processor is a dict from entity names to dicts with
  the optional keys \<^verbatim>\<open>type\<close> and \<^verbatim>\<open>value\<close>, the value a number. A dict is kept as
  its list of items in insertion order, with distinct keys.
\<close>

record entity_config =
  cfg_type :: "string option"
  cfg_value :: "rat option"

type_synonym config = "(string \<times> entity_config) list"

text \<open>\<^verbatim>\<open>d.get('value', 0)\<close>.\<close>

definition get_value :: "entity_config \<Rightarrow> rat" where
  "get_value d = (case cfg_value d of Some v \<Rightarrow> v | None \<Rightarrow> 0)"

text \<open>\<^verbatim>\<open>entity_config.get('value', 0) if entity_config else 0\<close>: \<^verbatim>\<open>None\<close> and the empty
  dict are both false.\<close>

definition rate_of :: "entity_config option \<Rightarrow> rat" where
  "rate_of entity_config =
     (case entity_config of
        None \<Rightarrow> 0
      | Some d \<Rightarrow> if cfg_type d = None \<and> cfg_value d = None then 0 else get_value d)"

text \<open>An entry of a result dict; \<^verbatim>\<open>None\<close> is an absent key.\<close>

record earnings_data =
  entity_name :: "string option"
  total_amount :: rat
  percentage :: "rat option"
  flat_rate :: "rat option"
  earnings :: rat

text \<open>The loop over \<^verbatim>\<open>config.items()\<close> that stops at the first key equal to the
  entity up to case.\<close>

fun find_config :: "string \<Rightarrow> (string \<times> 'a) list \<Rightarrow> (string \<times> 'a) option" where
  "find_config entity [] = None"
| "find_config entity ((config_entity, config_data) # rest) =
     (if lower entity = lower config_entity then Some (config_entity, config_data)
      else find_config entity rest)"

definition calculate_earnings :: "string \<Rightarrow> rat \<Rightarrow> category \<Rightarrow> config \<Rightarrow> earnings_data" where
  "calculate_earnings entity total_amt category config =
     (let (entity_config, matched_name) =
            (case find_config entity config of
               None \<Rightarrow> (None, entity)
             | Some (config_entity, config_data) \<Rightarrow> (Some config_data, config_entity))
      in case calculation_method category of
           SUM_ONLY \<Rightarrow>
             \<lparr>entity_name = Some matched_name, total_amount = total_amt,
              percentage = Some 0, flat_rate = None, earnings = total_amt\<rparr>
         | PERCENTAGE \<Rightarrow>
             \<lparr>entity_name = Some matched_name, total_amount = total_amt,
              percentage = Some (rate_of entity_config), flat_rate = None,
              earnings = (total_amt * rate_of entity_config) / 100\<rparr>
         | FLAT_RATE \<Rightarrow>
             \<lparr>entity_name = Some matched_name, total_amount = total_amt,
              percentage = None, flat_rate = Some (rate_of entity_config),
              earnings = rate_of entity_config\<rparr>
         | CUSTOM \<Rightarrow>
             \<lparr>entity_name = Some matched_name, total_amount = total_amt,
              percentage = None, flat_rate = None, earnings = 0\<rparr>)"

type_synonym result_dict = "(string \<times> earnings_data) list"

text \<open>\<^verbatim>\<open>results[earnings_data['entity_name']] = earnings_data\<close>: a key already there
  keeps its place and takes the new value.\<close>

definition store_result :: "result_dict \<Rightarrow> earnings_data \<Rightarrow> result_dict" where
  "store_result d earnings_data =
     (case entity_name earnings_data of
        None \<Rightarrow> d
      | Some n \<Rightarrow> AList.update n earnings_data d)"

definition zero_entry :: "entity_config \<Rightarrow> earnings_data" where
  "zero_entry d =
     \<lparr>entity_name = None, total_amount = 0, percentage = Some (get_value d),
      flat_rate = None, earnings = 0\<rparr>"

text \<open>The loop that adds the configured entities missing from a result dict.\<close>

fun zero_fill :: "config \<Rightarrow> result_dict \<Rightarrow> result_dict" where
  "zero_fill [] d = d"
| "zero_fill ((config_entity, config_data) # rest) d =
     zero_fill rest
       (if config_entity \<in> fst ` set d then d
        else d @ [(config_entity, zero_entry config_data)])"

text \<open>One aggregation scope: the loop over the aggregate rows, then the zero fill.\<close>

definition scope_results :: "category \<Rightarrow> config \<Rightarrow> (string \<times> rat) list \<Rightarrow> result_dict" where
  "scope_results category config totals =
     zero_fill config
       (foldl (\<lambda>d (entity, total_amt). store_result d (calculate_earnings entity total_amt category config))
              [] totals)"

section \<open>Grouped aggregation\<close>

text \<open>The value a row contributes to \<^verbatim>\<open>groupby(...)[amount_col].sum()\<close>: its first
  amount, a missing one being skipped.\<close>

definition first_amount :: "clean_row \<Rightarrow> rat" where
  "first_amount r =
     (case r_amounts r of
        [] \<Rightarrow> 0
      | a # _ \<Rightarrow> (case a of None \<Rightarrow> 0 | Some v \<Rightarrow> v))"

text \<open>Group keys are sorted: numbers before texts, texts by code point.\<close>

fun cell_rank :: "cell \<Rightarrow> nat \<times> int \<times> string" where
  "cell_rank (Num i) = (0, i, [])"
| "cell_rank (Str s) = (1, 0, s)"
| "cell_rank NaN = (2, 0, [])"

text \<open>\<^verbatim>\<open>df.groupby([week_col, entity_col])[amount_col].sum().reset_index()\<close>; rows whose
  week is missing belong to no group.\<close>

definition weekly_totals :: "clean_row list \<Rightarrow> (cell \<times> string \<times> rat) list" where
  "weekly_totals df =
     map (\<lambda>(w, e). (w, e, sum_list (map first_amount
                                       (filter (\<lambda>r. r_week r = w \<and> r_entity r = e) df))))
         (sort_key (\<lambda>(w, e). (cell_rank w, e))
            (remdups (map (\<lambda>r. (r_week r, r_entity r)) (filter (\<lambda>r. r_week r \<noteq> NaN) df))))"

text \<open>\<^verbatim>\<open>df.groupby(entity_col)[amount_col].sum().to_dict()\<close>.\<close>

definition entity_totals :: "clean_row list \<Rightarrow> (string \<times> rat) list" where
  "entity_totals df =
     map (\<lambda>e. (e, sum_list (map first_amount (filter (\<lambda>r. r_entity r = e) df))))
         (sort (remdups (map r_entity df)))"

text \<open>\<^verbatim>\<open>Series.unique()\<close>: the distinct values in order of first appearance.\<close>

definition unique :: "'a list \<Rightarrow> 'a list" where
  "unique xs = rev (remdups (rev xs))"

record results =
  weeks :: "(cell \<times> result_dict) list option"
  overall :: result_dict

text \<open>
  The cleaned table with its labels: the entity column, the amount columns, and
  \<^verbatim>\<open>Week\<close> when it has been attached.
\<close>

record clean_frame =
  has_week :: bool
  clean_rows :: "clean_row list"

definition clean_columns :: "clean_frame \<Rightarrow> category \<Rightarrow> string list" where
  "clean_columns df category =
     entity_column category # amount_columns category @ (if has_week df then [''Week''] else [])"

text \<open>
  \<^verbatim>\<open>_process_with_grouping\<close>. An empty list of amount columns raises
  \<^verbatim>\<open>IndexError\<close>, a grouping label unknown to the cleaned table \<^verbatim>\<open>KeyError\<close>; grouping
  labels that repeat a label of the cleaned table cannot be put back as columns by
  \<^verbatim>\<open>reset_index\<close>, which raises \<^verbatim>\<open>ValueError\<close>. That leaves the grouping by
  \<^verbatim>\<open>Week\<close> and entity.
\<close>

definition process_with_grouping :: "clean_frame \<Rightarrow> category \<Rightarrow> config \<Rightarrow> exn + results" where
  "process_with_grouping df category config =
     (if amount_columns category = [] then Inl IndexError
      else if \<not> set (grouping_columns category) \<subseteq> set (clean_columns df category) then Inl KeyError
      else if grouping_columns category \<noteq> [''Week''] \<or> \<not> has_week df then Inl ValueError
      else
        (let weekly_data = weekly_totals (clean_rows df);
             week_list = unique (map fst weekly_data)
         in Inr \<lparr>weeks = Some (map (\<lambda>w. (w, scope_results category config
                                              (map snd (filter (\<lambda>(w', e, t). w' = w) weekly_data))))
                                  week_list),
                 overall = scope_results category config (entity_totals (clean_rows df))\<rparr>))"

text \<open>\<^verbatim>\<open>_process_without_grouping\<close>.\<close>

definition process_without_grouping :: "clean_frame \<Rightarrow> category \<Rightarrow> config \<Rightarrow> exn + results" where
  "process_without_grouping df category config =
     (if amount_columns category = [] then Inl IndexError
      else Inr \<lparr>weeks = None,
                overall = scope_results category config (entity_totals (clean_rows df))\<rparr>)"


section \<open>Processing a category\<close>

text \<open>
  Tables are objects: a store maps references to tables, and \<^verbatim>\<open>df.copy()\<close> allocates
  a new one. \<^verbatim>\<open>process_category\<close> gets a reference to the caller's table; it returns
  the store and the category as it leaves them, and the results or the exception.
\<close>

record store =
  frames :: "nat \<Rightarrow> frame"
  next_ref :: nat

text \<open>\<^verbatim>\<open>df.loc[df_clean.index, 'Week'].values\<close>, attached to the cleaned rows.\<close>

fun attach_week :: "frame \<Rightarrow> clean_row list \<Rightarrow> exn + clean_row list" where
  "attach_week df [] = Inr []"
| "attach_week df (r # rs) =
     (case get_cell (columns df) (rows df ! r_idx r) ''Week'' of
        Inl e \<Rightarrow> Inl e
      | Inr w \<Rightarrow> (case attach_week df rs of
                   Inl e \<Rightarrow> Inl e
                 | Inr rs' \<Rightarrow> Inr (r\<lparr>r_week := w\<rparr> # rs')))"

text \<open>The part of \<^verbatim>\<open>process_category\<close> after week detection, on the table that the
  local name \<^verbatim>\<open>df\<close> then refers to.\<close>

definition process_cleaned :: "frame \<Rightarrow> category \<Rightarrow> config \<Rightarrow> exn + results" where
  "process_cleaned df category config =
     (case clean_dataframe df (entity_column category) (amount_columns category) of
        Inl e \<Rightarrow> Inl e
      | Inr df_clean \<Rightarrow>
          (let readd = (grouping_columns category \<noteq> [] \<and> ''Week'' \<in> set (columns df)
                        \<and> ''Week'' \<notin> set (entity_column category # amount_columns category))
           in case (if readd then attach_week df df_clean else Inr df_clean) of
                Inl e \<Rightarrow> Inl e
              | Inr df_clean' \<Rightarrow>
                  if grouping_columns category \<noteq> []
                  then process_with_grouping \<lparr>has_week = readd, clean_rows = df_clean'\<rparr> category config
                  else process_without_grouping \<lparr>has_week = readd, clean_rows = df_clean'\<rparr> category config))"

definition process_category :: "store \<Rightarrow> nat \<Rightarrow> category \<Rightarrow> config \<Rightarrow> store \<times> category \<times> (exn + results)" where
  "process_category s df category config =
     (let s1 = s\<lparr>frames := (frames s)(df := (frames s df)\<lparr>columns := map strip (columns (frames s df))\<rparr>)\<rparr>;
          broker_col = find (\<lambda>col. contains ''broker'' (lower col)) (columns (frames s1 df))
      in case broker_col of
           None \<Rightarrow> (s1, category, process_cleaned (frames s1 df) category config)
         | Some bc \<Rightarrow>
             if grouping_columns category = []
             then (s1, category, process_cleaned (frames s1 df) category config)
             else
               (let df' = next_ref s1;
                    s2 = s1\<lparr>frames := (frames s1)(df' := frames s1 df), next_ref := Suc df'\<rparr>
                in case detect_week_markers (frames s2 df') bc of
                     Inl e \<Rightarrow> (s2, category, Inl e)
                   | Inr week_list \<Rightarrow>
                       (let s3 = s2\<lparr>frames := (frames s2)
                                      (df' := set_column (frames s2 df') ''Week'' (map Str week_list))\<rparr>;
                            category' = (if ''Week'' \<in> set (grouping_columns category) then category
                                         else category\<lparr>grouping_columns :=
                                                         grouping_columns category @ [''Week'']\<rparr>)
                        in (s3, category', process_cleaned (frames s3 df') category' config))))"

section \<open>The dispatcher-only processor\<close>

text \<open>
  \<^verbatim>\<open>process_excel_file\<close>, from the table that \<^verbatim>\<open>pd.read_excel\<close> returns. The column
  loops have no \<^verbatim>\<open>break\<close>: the last matching column wins.
\<close>

definition last_match :: "(string \<Rightarrow> bool) \<Rightarrow> string list \<Rightarrow> string option" where
  "last_match P cols = foldl (\<lambda>found col. if P col then Some col else found) None cols"

definition legacy_entry :: "string \<Rightarrow> rat \<Rightarrow> (string \<times> rat) list \<Rightarrow> string \<times> earnings_data" where
  "legacy_entry dispatcher total_amt dispatcher_percentages =
     (let (matched_name, p) =
            (case find_config dispatcher dispatcher_percentages of
               None \<Rightarrow> (dispatcher, 0)
             | Some (config_dispatcher, config_percentage) \<Rightarrow> (config_dispatcher, config_percentage))
      in (matched_name,
          \<lparr>entity_name = None, total_amount = total_amt, percentage = Some p,
           flat_rate = None, earnings = (total_amt * p) / 100\<rparr>))"

fun legacy_fill :: "(string \<times> rat) list \<Rightarrow> result_dict \<Rightarrow> result_dict" where
  "legacy_fill [] d = d"
| "legacy_fill ((config_dispatcher, config_percentage) # rest) d =
     legacy_fill rest
       (if \<exists>result_dispatcher \<in> fst ` set d. lower result_dispatcher = lower config_dispatcher
        then d
        else d @ [(config_dispatcher,
                   \<lparr>entity_name = None, total_amount = 0, percentage = Some config_percentage,
                    flat_rate = None, earnings = 0\<rparr>)])"

definition legacy_scope :: "(string \<times> rat) list \<Rightarrow> (string \<times> rat) list \<Rightarrow> result_dict" where
  "legacy_scope dispatcher_percentages totals =
     legacy_fill dispatcher_percentages
       (foldl (\<lambda>d (dispatcher, total_amt).
                 (case legacy_entry dispatcher total_amt dispatcher_percentages of
                    (matched_name, v) \<Rightarrow> AList.update matched_name v d))
              [] totals)"

text \<open>The cleaning steps, on the rows of the columns broker, dispatch, amount and
  \<^verbatim>\<open>Week\<close>.\<close>

definition legacy_clean :: "(nat \<times> cell list) list \<Rightarrow> clean_row list" where
  "legacy_clean selected =
     (let df1 = filter (\<lambda>(i, cs). \<not> isna (cs ! 2)) selected;
          df2 = map (\<lambda>(i, cs). (i, cs ! 1, clean_amount (cs ! 2), cs ! 3)) df1;
          df3 = filter (\<lambda>(i, d, a, w). a \<noteq> None) df2;
          df4 = filter (\<lambda>(i, d, a, w). positive a) df3;
          df5 = map (\<lambda>(i, d, a, w). (i, strip (py_str d), a, w)) df4;
          df6 = filter (\<lambda>(i, d, a, w). d \<noteq> ''nan'') df5;
          df7 = filter (\<lambda>(i, d, a, w). d \<noteq> []) df6
      in map (\<lambda>(i, d, a, w). \<lparr>r_idx = i, r_entity = d, r_amounts = [a], r_week = w\<rparr>) df7)"

text \<open>The grouping and the two result loops.\<close>

definition legacy_results :: "clean_row list \<Rightarrow> (string \<times> rat) list \<Rightarrow> results" where
  "legacy_results df dispatcher_percentages =
     (let weekly_data = weekly_totals df;
          week_list = unique (map fst weekly_data)
      in \<lparr>weeks = Some (map (\<lambda>w. (w, legacy_scope dispatcher_percentages
                                          (map snd (filter (\<lambda>(w', e, t). w' = w) weekly_data))))
                              week_list),
          overall = legacy_scope dispatcher_percentages (entity_totals df)\<rparr>)"

definition process_excel_file :: "frame \<Rightarrow> (string \<times> rat) list \<Rightarrow> exn + results" where
  "process_excel_file df0 dispatcher_percentages =
     (let df = df0\<lparr>columns := map strip (columns df0)\<rparr>;
          dispatch_col = last_match (\<lambda>col. contains ''dispatch'' (lower col)) (columns df);
          amount_col = last_match (\<lambda>col. contains ''amount'' (lower col)
                                         \<or> contains ''total'' (lower col)
                                         \<or> contains ''revenue'' (lower col)) (columns df);
          broker_col = last_match (\<lambda>col. contains ''broker'' (lower col)) (columns df)
      in case dispatch_col of
           None \<Rightarrow> Inl ValueError
         | Some dc \<Rightarrow>
        (case amount_col of
           None \<Rightarrow> Inl ValueError
         | Some ac \<Rightarrow>
        (case broker_col of
           None \<Rightarrow> Inl ValueError
         | Some bc \<Rightarrow>
        (case detect_week_markers df bc of
           Inl e \<Rightarrow> Inl e
         | Inr week_list \<Rightarrow>
        (case select_rows (columns (set_column df ''Week'' (map Str week_list)))
                [bc, dc, ac, ''Week''] 0 (rows (set_column df ''Week'' (map Str week_list))) of
           Inl e \<Rightarrow> Inl e
         | Inr selected \<Rightarrow>
             Inr (legacy_results (legacy_clean selected) dispatcher_percentages))))))"

section \<open>Configuration validation and storage\<close>

text \<open>
  A submitted configuration is arbitrary JSON-like data. A number is a finite value or
  one of the three special floats; finite values are exact.
\<close>

datatype pyfloat = Fin rat | PosInf | NegInf | NotANumber

datatype pyval =
    PNone
  | PBool bool
  | PNum pyfloat
  | PStr string
  | PList "pyval list"
  | PDict "(string \<times> pyval) list"

text \<open>\<^verbatim>\<open>x < r\<close> and \<^verbatim>\<open>x > r\<close> for a float \<^verbatim>\<open>x\<close> and a finite \<^verbatim>\<open>r\<close>: every comparison
  with NaN is false.\<close>

fun pf_less :: "pyfloat \<Rightarrow> rat \<Rightarrow> bool" where
  "pf_less (Fin a) r = (a < r)"
| "pf_less NegInf r = True"
| "pf_less PosInf r = False"
| "pf_less NotANumber r = False"

fun pf_greater :: "pyfloat \<Rightarrow> rat \<Rightarrow> bool" where
  "pf_greater (Fin a) r = (a > r)"
| "pf_greater PosInf r = True"
| "pf_greater NegInf r = False"
| "pf_greater NotANumber r = False"

text \<open>
  \<^verbatim>\<open>float(s)\<close> on a text: underscores may stand between digits only and are dropped;
  blanks around the text are dropped; then comes \<^verbatim>\<open>inf\<close>, \<^verbatim>\<open>infinity\<close> or \<^verbatim>\<open>nan\<close> in
  any case with an optional sign, or a decimal.
\<close>

fun underscores_ok :: "char \<Rightarrow> string \<Rightarrow> bool" where
  "underscores_ok prev [] = (prev \<noteq> CHR ''_'')"
| "underscores_ok prev (c # cs) =
     (if c = CHR ''_'' then is_digit prev \<and> underscores_ok c cs
      else (prev = CHR ''_'' \<longrightarrow> is_digit c) \<and> underscores_ok c cs)"

definition is_c_space :: "char \<Rightarrow> bool" where
  "is_c_space c = ((of_char c :: nat) \<in> {9, 10, 11, 12, 13, 32})"

definition parse_inf_or_nan :: "string \<Rightarrow> pyfloat option" where
  "parse_inf_or_nan s =
     (let (neg, r) = split_sign s
      in if lower r = ''inf'' \<or> lower r = ''infinity'' then Some (if neg then NegInf else PosInf)
         else if lower r = ''nan'' then Some NotANumber
         else None)"

definition float_of_string :: "string \<Rightarrow> exn + pyfloat" where
  "float_of_string s =
     (if \<not> underscores_ok (CHR 0x00) s then Inl ValueError
      else
        (let t = rev (dropWhile is_c_space (rev (dropWhile is_c_space
                   (filter (\<lambda>c. c \<noteq> CHR ''_'') s))))
         in case parse_inf_or_nan t of
              Some x \<Rightarrow> Inr x
            | None \<Rightarrow> (case parse_decimal t of
                         Inl e \<Rightarrow> Inl e
                       | Inr r \<Rightarrow> Inr (Fin r))))"

text \<open>\<^verbatim>\<open>float(v)\<close>.\<close>

fun py_float :: "pyval \<Rightarrow> exn + pyfloat" where
  "py_float PNone = Inl TypeError"
| "py_float (PBool b) = Inr (Fin (if b then 1 else 0))"
| "py_float (PNum x) = Inr x"
| "py_float (PStr s) = float_of_string s"
| "py_float (PList vs) = Inl TypeError"
| "py_float (PDict items) = Inl TypeError"

text \<open>\<^verbatim>\<open>DispatcherAnalysis.validate_config\<close>: the loop over the items.\<close>

fun dispatcher_items_ok :: "(string \<times> pyval) list \<Rightarrow> bool" where
  "dispatcher_items_ok [] = True"
| "dispatcher_items_ok ((dispatcher, settings) # rest) =
     (case settings of
        PDict d \<Rightarrow>
          (case (map_of d ''type'', map_of d ''value'') of
             (Some t, Some v) \<Rightarrow>
               if t \<noteq> PStr ''percentage'' then False
               else (case py_float v of
                       Inl e \<Rightarrow> False
                     | Inr x \<Rightarrow> if pf_less x 0 \<or> pf_greater x 100 then False
                                else dispatcher_items_ok rest)
           | _ \<Rightarrow> False)
      | _ \<Rightarrow> False)"

text \<open>\<^verbatim>\<open>DriverAnalysis.validate_config\<close>.\<close>

fun driver_items_ok :: "(string \<times> pyval) list \<Rightarrow> bool" where
  "driver_items_ok [] = True"
| "driver_items_ok ((driver, settings) # rest) =
     (case settings of
        PDict d \<Rightarrow>
          (case (map_of d ''type'', map_of d ''value'') of
             (Some t, Some v) \<Rightarrow>
               if t \<noteq> PStr ''percentage'' \<and> t \<noteq> PStr ''flat_rate'' then False
               else (case py_float v of
                       Inl e \<Rightarrow> False
                     | Inr x \<Rightarrow> if pf_less x 0 then False
                                else if t = PStr ''percentage'' \<and> pf_greater x 100 then False
                                else driver_items_ok rest)
           | _ \<Rightarrow> False)
      | _ \<Rightarrow> False)"

definition validate_config :: "category \<Rightarrow> (string \<times> pyval) list \<Rightarrow> bool" where
  "validate_config category config =
     (case category_class category of
        DispatcherAnalysis \<Rightarrow> config \<noteq> [] \<and> dispatcher_items_ok config
      | DriverAnalysis \<Rightarrow> config \<noteq> [] \<and> driver_items_ok config
      | BrokerAnalysis \<Rightarrow> True)"

text \<open>The configuration manager: the dict in memory and the content of its JSON file.\<close>

record config_manager =
  cm_config :: "(string \<times> (string \<times> pyval) list) list"
  cm_file :: "(string \<times> (string \<times> pyval) list) list"

definition get_category_id :: "category \<Rightarrow> string" where
  "get_category_id category =
     map (\<lambda>c. if c = CHR '' '' then CHR ''_'' else c) (lower (name category))"

definition save_config :: "config_manager \<Rightarrow> config_manager" where
  "save_config cm = cm\<lparr>cm_file := cm_config cm\<rparr>"

definition set_category_config :: "config_manager \<Rightarrow> category \<Rightarrow> (string \<times> pyval) list \<Rightarrow> config_manager" where
  "set_category_config cm category config =
     save_config (cm\<lparr>cm_config := AList.update (get_category_id category) config (cm_config cm)\<rparr>)"

definition validate_and_save :: "config_manager \<Rightarrow> category \<Rightarrow> (string \<times> pyval) list \<Rightarrow> config_manager \<times> bool" where
  "validate_and_save cm category config =
     (if \<not> validate_config category config then (cm, False)
      else (set_category_config cm category config, True))"

section \<open>Notions used in the statements\<close>

text \<open>Every row of a table has one cell per column.\<close>

definition rectangular :: "frame \<Rightarrow> bool" where
  "rectangular df = list_all (\<lambda>row. length row = length (columns df)) (rows df)"

text \<open>The text that week detection reads in row \<open>i\<close> of the marker column.\<close>

definition marker_text :: "frame \<Rightarrow> string \<Rightarrow> nat \<Rightarrow> string" where
  "marker_text df broker_column i =
     broker_text (case get_cell (columns df) (rows df ! i) broker_column of
                    Inl e \<Rightarrow> NaN
                  | Inr v \<Rightarrow> v)"

definition marker_table :: frame where
  "marker_table =
     \<lparr>columns = [''Broker''], rows = [[Str ''''], [Str ''Week 4 starts''], [Str '''']]\<rparr>"

definition two_amount_table :: frame where
  "two_amount_table =
     \<lparr>columns = [''Dispatch'', ''Amount'', ''Fee''],
      rows = [[Str ''Ali'', Str ''$500'', Str ''20''],
              [Str ''Bob'', Str ''300'', Str ''n/a''],
              [Str ''Cy'', Str ''100'', Num (- 5)],
              [Str ''Di'', Str ''10'', NaN]]\<rparr>"

definition dispatcher_category :: category where
  "dispatcher_category =
     \<lparr>category_class = DispatcherAnalysis, name = ''Dispatcher Earnings'',
      entity_column = ''Dispatch'', amount_columns = [''Amount''],
      grouping_columns = [''Week''], calculation_method = PERCENTAGE\<rparr>"

definition ali_config :: config where
  "ali_config = [(''Ali'', \<lparr>cfg_type = Some ''percentage'', cfg_value = Some 10\<rparr>)]"

definition flat_config :: config where
  "flat_config = [(''Ali'', \<lparr>cfg_type = Some ''flat_rate'', cfg_value = Some 300\<rparr>)]"

text \<open>
  What reconciliation promises for one aggregation scope, given the cleaned rows of the
  scope and its result dict: a configured entity that no row of the scope matches up to
  case has the zero entry; an entity of the scope that no configuration key matches up
  to case is listed under its own name with its total and with no rate other than 0.
\<close>

abbreviation reconciled :: "category \<Rightarrow> config \<Rightarrow> clean_row list \<Rightarrow> result_dict \<Rightarrow> bool" where
  "reconciled category config scope d \<equiv>
     (\<forall>c data. map_of config c = Some data \<and> (\<forall>r \<in> set scope. lower (r_entity r) \<noteq> lower c)
        \<longrightarrow> map_of d c = Some \<lparr>entity_name = None, total_amount = 0,
                                percentage = Some (get_value data), flat_rate = None,
                                earnings = 0\<rparr>)
     \<and> (\<forall>r \<in> set scope. (\<forall>k \<in> fst ` set config. lower k \<noteq> lower (r_entity r))
        \<longrightarrow> (\<exists>ed. map_of d (r_entity r) = Some ed
               \<and> total_amount ed
                   = sum_list (map first_amount (filter (\<lambda>r'. r_entity r' = r_entity r) scope))
               \<and> percentage ed \<in> {None, Some 0} \<and> flat_rate ed \<in> {None, Some 0}
               \<and> (calculation_method category = PERCENTAGE
                    \<longrightarrow> percentage ed = Some 0 \<and> earnings ed = 0)
               \<and> (calculation_method category = FLAT_RATE
                    \<longrightarrow> flat_rate ed = Some 0 \<and> earnings ed = 0)))"

text \<open>
  The category as the bot builds it, without grouping columns, with a table of two
  entities and a configuration of two, one of them absent from the table.
\<close>

definition bot_category :: category where
  "bot_category =
     \<lparr>category_class = DispatcherAnalysis, name = ''Dispatcher Earnings'',
      entity_column = ''Dispatch'', amount_columns = [''Amount''],
      grouping_columns = [], calculation_method = PERCENTAGE\<rparr>"

definition idle_config :: config where
  "idle_config = [(''Ali'', \<lparr>cfg_type = Some ''percentage'', cfg_value = Some 10\<rparr>),
                  (''Cy'', \<lparr>cfg_type = Some ''percentage'', cfg_value = Some 5\<rparr>)]"

definition ungrouped_frame :: clean_frame where
  "ungrouped_frame =
     \<lparr>has_week = False,
      clean_rows =
        [\<lparr>r_idx = 0, r_entity = ''ali'', r_amounts = [Some 100], r_week = NaN\<rparr>,
         \<lparr>r_idx = 2, r_entity = ''Bob'', r_amounts = [Some 50], r_week = NaN\<rparr>]\<rparr>"

definition ungrouped_results :: results where
  "ungrouped_results =
     \<lparr>weeks = None,
      overall =
        [(''Bob'', \<lparr>entity_name = Some ''Bob'', total_amount = 50, percentage = Some 0,
                    flat_rate = None, earnings = 0\<rparr>),
         (''Ali'', \<lparr>entity_name = Some ''Ali'', total_amount = 100, percentage = Some 10,
                    flat_rate = None, earnings = 10\<rparr>),
         (''Cy'', \<lparr>entity_name = None, total_amount = 0, percentage = Some 5,
                   flat_rate = None, earnings = 0\<rparr>)]\<rparr>"

definition two_week_frame :: clean_frame where
  "two_week_frame =
     \<lparr>has_week = True,
      clean_rows =
        [\<lparr>r_idx = 0, r_entity = ''ali'', r_amounts = [Some 100], r_week = Str ''Before Week 1''\<rparr>,
         \<lparr>r_idx = 2, r_entity = ''Bob'', r_amounts = [Some 50], r_week = Str ''Week 2''\<rparr>]\<rparr>"

definition week2_results :: result_dict where
  "week2_results =
     [(''Bob'', \<lparr>entity_name = Some ''Bob'', total_amount = 50, percentage = Some 0,
                 flat_rate = None, earnings = 0\<rparr>),
      (''Ali'', \<lparr>entity_name = None, total_amount = 0, percentage = Some 10,
                 flat_rate = None, earnings = 0\<rparr>)]"

definition two_week_results :: results where
  "two_week_results =
     \<lparr>weeks = Some
        [(Str ''Before Week 1'',
          [(''Ali'', \<lparr>entity_name = Some ''Ali'', total_amount = 100, percentage = Some 10,
                      flat_rate = None, earnings = 10\<rparr>)]),
         (Str ''Week 2'', week2_results)],
      overall =
        [(''Bob'', \<lparr>entity_name = Some ''Bob'', total_amount = 50, percentage = Some 0,
                    flat_rate = None, earnings = 0\<rparr>),
         (''Ali'', \<lparr>entity_name = Some ''Ali'', total_amount = 100, percentage = Some 10,
                    flat_rate = None, earnings = 10\<rparr>)]\<rparr>"

text \<open>The table of the end-to-end scenario, and the same table as a sheet reader
  delivers it, with empty cells missing.\<close>

definition scenario_table :: frame where
  "scenario_table =
     \<lparr>columns = [''Broker'', ''Dispatch'', ''Amount''],
      rows = [[Str '''', Str ''Ali'', Str ''$500''],
              [Str ''Week 2'', Str '''', Str ''''],
              [Str '''', Str ''Ali'', Str ''300''],
              [Str '''', Str ''Sara'', Str ''$-10'']]\<rparr>"

definition scenario_sheet :: frame where
  "scenario_sheet =
     \<lparr>columns = [''Broker'', ''Dispatch'', ''Amount''],
      rows = [[NaN, Str ''Ali'', Str ''$500''],
              [Str ''Week 2'', NaN, NaN],
              [NaN, Str ''Ali'', Str ''300''],
              [NaN, Str ''Sara'', Str ''$-10'']]\<rparr>"

definition week_entry :: "string option \<Rightarrow> rat \<Rightarrow> rat \<Rightarrow> rat \<Rightarrow> earnings_data" where
  "week_entry n t p e =
     \<lparr>entity_name = n, total_amount = t, percentage = Some p, flat_rate = None, earnings = e\<rparr>"

definition scenario_results :: "string option \<Rightarrow> results" where
  "scenario_results n =
     \<lparr>weeks = Some [(Str ''Before Week 1'', [(''Ali'', week_entry n 500 10 50)]),
                    (Str ''Week 2'', [(''Ali'', week_entry n 300 10 30)])],
      overall = [(''Ali'', week_entry n 800 10 80)]\<rparr>"

text \<open>A store that holds one table, at reference 0.\<close>

definition caller_store :: "frame \<Rightarrow> store" where
  "caller_store df = \<lparr>frames = (\<lambda>r. df), next_ref = 1\<rparr>"

definition padded_table :: frame where
  "padded_table =
     \<lparr>columns = [''Broker '', '' Dispatch'', ''Amount''],
      rows = [[Str '''', Str ''Ali'', Str ''$500'']]\<rparr>"

text \<open>Two spellings of one dispatcher, in two weeks.\<close>

definition two_spellings_table :: frame where
  "two_spellings_table =
     \<lparr>columns = [''Broker'', ''Dispatch'', ''Amount''],
      rows = [[Str '''', Str ''ALI'', Str ''100''],
              [Str ''Week 2'', Str ''ali'', Str ''200'']]\<rparr>"

definition two_spellings_results :: "string option \<Rightarrow> results" where
  "two_spellings_results n =
     \<lparr>weeks = Some [(Str ''Before Week 1'', [(''Ali'', week_entry n 100 10 10)]),
                    (Str ''Week 2'', [(''Ali'', week_entry n 200 10 20)])],
      overall = [(''Ali'', week_entry n 200 10 20)]\<rparr>"

text \<open>The total that a result dict lists for an entity, 0 when the entity is absent.\<close>

definition listed_total :: "result_dict \<Rightarrow> string \<Rightarrow> rat" where
  "listed_total d e = (case map_of d e of None \<Rightarrow> 0 | Some x \<Rightarrow> total_amount x)"

definition weekly_sum :: "results \<Rightarrow> string \<Rightarrow> rat" where
  "weekly_sum res e =
     (case weeks res of
        None \<Rightarrow> 0
      | Some ws \<Rightarrow> sum_list (map (\<lambda>(w, d). listed_total d e) ws))"

text \<open>A configuration whose percentage is not a number, and an empty manager.\<close>

definition nan_config :: "(string \<times> pyval) list" where
  "nan_config = [(''Ali'', PDict [(''type'', PStr ''percentage''), (''value'', PNum NotANumber)])]"

definition empty_manager :: config_manager where
  "empty_manager = \<lparr>cm_config = [], cm_file = []\<rparr>"

section \<open>Value sanitization\<close>

lemmas text_defs = is_digit_def is_space_def lower_char_def lower_def strip_def digit_char_def
  digit_val_def str_int_def nat_of_digits_def split_sign_def pow10_def mk_decimal_def
  parse_decimal_def isna_def amount_char_def clean_amount_def str_nat.simps Let_def

lemma parse_decimal_error: "parse_decimal s = Inl e \<Longrightarrow> e = ValueError"
  by (auto simp: parse_decimal_def Let_def split: prod.splits list.splits if_splits)

lemma parse_decimal_Nil: "parse_decimal [] = Inl ValueError"
  by (simp add: parse_decimal_def split_sign_def)

lemma clean_amount_Some_iff:
  "(clean_amount c = Some x) = (c \<noteq> NaN \<and> parse_decimal (filter amount_char (py_str c)) = Inr x)"
  by (auto simp: clean_amount_def isna_def Let_def parse_decimal_Nil split: sum.splits)

lemma clean_amount_None_iff:
  "(clean_amount c = None) = (c = NaN \<or> parse_decimal (filter amount_char (py_str c)) = Inl ValueError)"
  by (auto simp: clean_amount_def isna_def Let_def parse_decimal_Nil split: sum.splits dest: parse_decimal_error)

text \<open>
  Claim C2. \<^verbatim>\<open>clean_amount\<close> turns its input into text, keeps exactly the digits, points
  and minus signs, and parses what is left as a number. It yields a number precisely
  when the input is not missing and the kept text parses, and nothing precisely when
  the input is missing or the parse raises \<^verbatim>\<open>ValueError\<close>; no exception leaves it.
  On the five inputs of the specification it gives 1500, 1752, nothing, nothing and -5.
\<close>

theorem clean_amount_sanitizes:
  "clean_amount (Str ''$1,500'') = Some 1500
   \<and> clean_amount (Str ''1752$+LUMPE'') = Some 1752
   \<and> clean_amount (Str '''') = None
   \<and> clean_amount (Str ''abc'') = None
   \<and> clean_amount (Num (- 5)) = Some (- 5)
   \<and> (\<forall>ch. amount_char ch = (ch \<in> set ''0123456789.-''))
   \<and> (\<forall>c x. (clean_amount c = Some x)
         = (c \<noteq> NaN \<and> parse_decimal (filter amount_char (py_str c)) = Inr x))
   \<and> (\<forall>c. (clean_amount c = None)
         = (c = NaN \<or> parse_decimal (filter amount_char (py_str c)) = Inl ValueError))"
proof -
  have e1: "clean_amount (Str ''$1,500'') = Some 1500" by (simp add: text_defs)
  have e2: "clean_amount (Str ''1752$+LUMPE'') = Some 1752" by (simp add: text_defs)
  have e3: "clean_amount (Str '''') = None" by (simp add: text_defs)
  have e4: "clean_amount (Str ''abc'') = None" by (simp add: text_defs)
  have e5: "clean_amount (Num (- 5)) = Some (- 5)" by (simp add: text_defs)
  have e6: "\<forall>ch. amount_char ch = (ch \<in> set ''0123456789.-'')"
    by (auto simp: amount_char_def is_digit_def)
  show ?thesis
    using e1 e2 e3 e4 e5 e6 clean_amount_Some_iff clean_amount_None_iff by blast
qed

section \<open>Week segmentation\<close>

lemma week_match_at_sound:
  assumes "week_match_at s = Some d"
  shows "\<exists>ws post. s = ''week'' @ ws @ d @ post \<and> list_all is_space ws \<and> d \<noteq> []
           \<and> list_all is_digit d \<and> (post = [] \<or> \<not> is_digit (hd post))"
proof -
  let ?r = "drop 4 s"
  let ?ws = "takeWhile is_space ?r"
  let ?t = "dropWhile is_space ?r"
  let ?post = "dropWhile is_digit ?t"
  from assms have w: "take 4 s = ''week''" and d: "d = takeWhile is_digit ?t" and ne: "d \<noteq> []"
    by (auto simp: week_match_at_def Let_def split: if_splits)
  have "s = take 4 s @ ?r" by simp
  also have "?r = ?ws @ ?t" by simp
  also have "?t = d @ ?post" using d by simp
  finally have "s = ''week'' @ ?ws @ d @ ?post" using w by simp
  moreover have "list_all is_space ?ws"
    by (simp add: list_all_iff) (meson set_takeWhileD)
  moreover have "list_all is_digit d"
    unfolding d by (simp add: list_all_iff) (meson set_takeWhileD)
  moreover have "?post = [] \<or> \<not> is_digit (hd ?post)"
    using hd_dropWhile by blast
  ultimately show ?thesis using ne by blast
qed

lemma week_search_sound:
  "week_search s = Some d \<Longrightarrow>
     \<exists>pre ws post. s = pre @ ''week'' @ ws @ d @ post \<and> list_all is_space ws \<and> d \<noteq> []
        \<and> list_all is_digit d \<and> (post = [] \<or> \<not> is_digit (hd post))"
proof (induction s)
  case Nil
  then show ?case by simp
next
  case (Cons c cs)
  show ?case
  proof (cases "week_match_at (c # cs)")
    case None
    with Cons.prems have "week_search cs = Some d" by simp
    from Cons.IH[OF this] obtain pre ws post where
      "cs = pre @ ''week'' @ ws @ d @ post" "list_all is_space ws" "d \<noteq> []"
      "list_all is_digit d" "post = [] \<or> \<not> is_digit (hd post)" by blast
    then have "c # cs = (c # pre) @ ''week'' @ ws @ d @ post" by simp
    then show ?thesis
      using \<open>list_all is_space ws\<close> \<open>d \<noteq> []\<close> \<open>list_all is_digit d\<close>
        \<open>post = [] \<or> \<not> is_digit (hd post)\<close> by blast
  next
    case (Some d')
    with Cons.prems have "d' = d" by simp
    with Some week_match_at_sound[of "c # cs" d] show ?thesis
      by (metis append_Nil)
  qed
qed

lemma digit_not_space: "is_digit c \<Longrightarrow> \<not> is_space c"
  by (auto simp: is_digit_def is_space_def)

lemma week_match_at_complete:
  assumes "list_all is_space ws" "d \<noteq> []" "list_all is_digit d"
  shows "week_match_at (''week'' @ ws @ d @ post) = Some (d @ takeWhile is_digit post)"
proof -
  obtain x xs where d: "d = x # xs" using assms(2) by (cases d) auto
  have x: "is_digit x" "\<not> is_space x" using assms(3) d digit_not_space by auto
  have "dropWhile is_space (ws @ d @ post) = d @ post"
    using assms(1) x d by (simp add: list_all_iff dropWhile_append2)
  moreover have "takeWhile is_digit (d @ post) = d @ takeWhile is_digit post"
    using assms(3) by (simp add: list_all_iff takeWhile_append2)
  ultimately show ?thesis using assms(2)
    by (simp add: week_match_at_def Let_def)
qed

lemma week_search_complete:
  assumes "list_all is_space ws" "d \<noteq> []" "list_all is_digit d"
  shows "week_search (pre @ ''week'' @ ws @ d @ post) \<noteq> None"
proof (induction pre)
  case Nil
  have "week_search (''week'' @ ws @ d @ post) = Some (d @ takeWhile is_digit post)"
    using week_match_at_complete[OF assms, of post] by simp
  then show ?case by simp
next
  case (Cons c pre)
  then show ?case by (simp split: option.splits)
qed

lemma get_cell_rectangular:
  assumes "length row = length cols" "label \<in> set cols"
  shows "\<exists>v. get_cell cols row label = Inr v"
proof -
  from assms have "label \<in> fst ` set (zip cols row)"
    by (metis map_fst_zip set_map)
  then obtain v where "map_of (zip cols row) label = Some v"
    by (metis domD dom_map_of_conv_image_fst)
  then show ?thesis by (simp add: get_cell_def)
qed

lemma week_loop_labels:
  assumes "\<forall>row \<in> set rs. length row = length cols" "bc \<in> set cols"
  shows "\<exists>labels. week_loop cols bc cur rs = Inr labels \<and> length labels = length rs
     \<and> (\<forall>i < length rs. labels ! i =
           next_week (if i = 0 then cur else labels ! (i - 1))
             (case get_cell cols (rs ! i) bc of Inl e \<Rightarrow> NaN | Inr v \<Rightarrow> v))"
  using assms(1)
proof (induction rs arbitrary: cur)
  case Nil
  then show ?case by simp
next
  case (Cons row rest)
  from Cons.prems assms(2) obtain v where v: "get_cell cols row bc = Inr v"
    using get_cell_rectangular[of row cols bc] by auto
  let ?cur' = "next_week cur v"
  from Cons.IH[of ?cur'] Cons.prems obtain labels where
    l: "week_loop cols bc ?cur' rest = Inr labels" "length labels = length rest"
    and step: "\<forall>i < length rest. labels ! i =
           next_week (if i = 0 then ?cur' else labels ! (i - 1))
             (case get_cell cols (rest ! i) bc of Inl e \<Rightarrow> NaN | Inr v \<Rightarrow> v)"
    by auto
  have res: "week_loop cols bc cur (row # rest) = Inr (?cur' # labels)"
    using v l by (simp add: Let_def)
  have "\<forall>i < length (row # rest). (?cur' # labels) ! i =
           next_week (if i = 0 then cur else (?cur' # labels) ! (i - 1))
             (case get_cell cols ((row # rest) ! i) bc of Inl e \<Rightarrow> NaN | Inr v \<Rightarrow> v)"
  proof (intro allI impI)
    fix i assume i: "i < length (row # rest)"
    show "(?cur' # labels) ! i =
           next_week (if i = 0 then cur else (?cur' # labels) ! (i - 1))
             (case get_cell cols ((row # rest) ! i) bc of Inl e \<Rightarrow> NaN | Inr v \<Rightarrow> v)"
    proof (cases i)
      case 0
      then show ?thesis using v by simp
    next
      case (Suc j)
      with i have j: "j < length rest" by simp
      from step j have "labels ! j = next_week (if j = 0 then ?cur' else labels ! (j - 1))
             (case get_cell cols (rest ! j) bc of Inl e \<Rightarrow> NaN | Inr v \<Rightarrow> v)" by blast
      then show ?thesis using Suc by (cases j) auto
    qed
  qed
  with res l(2) show ?case by auto
qed

lemma no_marker_labels:
  assumes "\<forall>i < length labels. labels ! i = (if i = 0 then cur else labels ! (i - 1))"
  shows "labels = replicate (length labels) cur"
proof -
  have "i < length labels \<Longrightarrow> labels ! i = cur" for i
  proof (induction i)
    case 0
    then show ?case using assms by auto
  next
    case (Suc i)
    then show ?case using assms by (metis Suc_lessD diff_Suc_1 nat.simps(3))
  qed
  then show ?thesis by (simp add: list_eq_iff_nth_eq)
qed

lemmas week_defs = detect_week_markers_def get_cell_def next_week_def broker_text_def
  week_match_at_def

lemma marker_table_labels:
  "detect_week_markers marker_table ''Broker'' = Inr [''Before Week 1'', ''Week 4'', ''Week 4'']"
  by (simp add: marker_table_def week_defs text_defs)

text \<open>
  Claim C3. On a table whose rows all hold the marker column, \<^verbatim>\<open>detect_week_markers\<close>
  returns one label per row, in row order. A row whose marker text, lowercased, holds
  \<^verbatim>\<open>week\<close>, whitespace and digits (\<open>week_search\<close>, characterised by
  \<open>week_search_sound\<close> and \<open>week_search_complete\<close>) gets the label \<^verbatim>\<open>Week\<close> followed
  by those digits as they stand; any other row gets the label of the row before it, the
  first row \<^verbatim>\<open>Before Week 1\<close>. Without markers every row is labelled \<^verbatim>\<open>Before Week 1\<close>.
  The markers "", "Week 4 starts", "" give \<^verbatim>\<open>Before Week 1\<close>, \<^verbatim>\<open>Week 4\<close>, \<^verbatim>\<open>Week 4\<close>.
\<close>

theorem detect_week_markers_labels:
  assumes "rectangular df" and "broker_column \<in> set (columns df)"
  shows "\<exists>labels. detect_week_markers df broker_column = Inr labels
     \<and> length labels = length (rows df)
     \<and> (\<forall>i < length (rows df). labels ! i =
           (case week_search (lower (marker_text df broker_column i)) of
              Some d \<Rightarrow> ''Week '' @ d
            | None \<Rightarrow> if i = 0 then ''Before Week 1'' else labels ! (i - 1)))
     \<and> ((\<forall>i < length (rows df). week_search (lower (marker_text df broker_column i)) = None)
          \<longrightarrow> labels = replicate (length (rows df)) ''Before Week 1'')
     \<and> detect_week_markers marker_table ''Broker''
         = Inr [''Before Week 1'', ''Week 4'', ''Week 4'']"
proof -
  from assms(1) have rect: "\<forall>row \<in> set (rows df). length row = length (columns df)"
    by (simp add: rectangular_def list_all_iff)
  from week_loop_labels[OF rect assms(2), of "''Before Week 1''"] obtain labels where
    l: "detect_week_markers df broker_column = Inr labels" "length labels = length (rows df)"
    and step: "\<forall>i < length (rows df). labels ! i =
           next_week (if i = 0 then ''Before Week 1'' else labels ! (i - 1))
             (case get_cell (columns df) (rows df ! i) broker_column of Inl e \<Rightarrow> NaN | Inr v \<Rightarrow> v)"
    by (auto simp: detect_week_markers_def)
  have rec: "\<forall>i < length (rows df). labels ! i =
           (case week_search (lower (marker_text df broker_column i)) of
              Some d \<Rightarrow> ''Week '' @ d
            | None \<Rightarrow> if i = 0 then ''Before Week 1'' else labels ! (i - 1))"
    using step by (auto simp: next_week_def marker_text_def split: option.splits)
  have "labels = replicate (length (rows df)) ''Before Week 1''"
    if none: "\<forall>i < length (rows df). week_search (lower (marker_text df broker_column i)) = None"
  proof -
    have "\<forall>i < length labels. labels ! i = (if i = 0 then ''Before Week 1'' else labels ! (i - 1))"
      using rec none l(2) by simp
    from no_marker_labels[OF this] show ?thesis using l(2) by simp
  qed
  with l rec marker_table_labels show ?thesis by blast
qed

theorem detect_week_markers_labels_witness:
  "rectangular marker_table \<and> ''Broker'' \<in> set (columns marker_table)
   \<and> detect_week_markers marker_table ''Broker'' = Inr [''Before Week 1'', ''Week 4'', ''Week 4'']
   \<and> (\<exists>labels. detect_week_markers marker_table ''Broker'' = Inr labels \<and> length labels = 3)"
proof -
  have r: "rectangular marker_table" by (simp add: rectangular_def marker_table_def)
  have b: "''Broker'' \<in> set (columns marker_table)" by (simp add: marker_table_def)
  from detect_week_markers_labels[OF r b] obtain labels where
    "detect_week_markers marker_table ''Broker'' = Inr labels" "length labels = length (rows marker_table)"
    by blast
  then have "\<exists>labels. detect_week_markers marker_table ''Broker'' = Inr labels \<and> length labels = 3"
    by (simp add: marker_table_def)
  with r b marker_table_labels show ?thesis by simp
qed


section \<open>Cleaning\<close>

lemma select_cells_nth:
  "select_cells cols row labels = Inr cs \<Longrightarrow>
     length cs = length labels \<and> (\<forall>m < length labels. get_cell cols row (labels ! m) = Inr (cs ! m))"
proof (induction labels arbitrary: cs)
  case Nil
  then show ?case by simp
next
  case (Cons l ls)
  from Cons.prems obtain c cs' where c: "get_cell cols row l = Inr c"
    and cs': "select_cells cols row ls = Inr cs'" and cs: "cs = c # cs'"
    by (auto split: sum.splits)
  from Cons.IH[OF cs'] have ih: "length cs' = length ls"
    "\<forall>m < length ls. get_cell cols row (ls ! m) = Inr (cs' ! m)" by auto
  have "get_cell cols row ((l # ls) ! m) = Inr (cs ! m)" if "m < length (l # ls)" for m
    using that c ih(2) cs by (cases m) auto
  with ih(1) cs show ?case by simp
qed

lemma select_rows_mem:
  "select_rows cols labels n rs = Inr sel \<Longrightarrow> (i, cs) \<in> set sel \<Longrightarrow>
     n \<le> i \<and> i - n < length rs \<and> select_cells cols (rs ! (i - n)) labels = Inr cs"
proof (induction rs arbitrary: n sel)
  case Nil
  then show ?case by simp
next
  case (Cons row rest)
  from Cons.prems(1) obtain cs0 sel' where cs0: "select_cells cols row labels = Inr cs0"
    and sel': "select_rows cols labels (Suc n) rest = Inr sel'" and sel: "sel = (n, cs0) # sel'"
    by (auto split: sum.splits)
  show ?case
  proof (cases "(i, cs) = (n, cs0)")
    case True
    then show ?thesis using cs0 by simp
  next
    case False
    with Cons.prems(2) sel have "(i, cs) \<in> set sel'" by auto
    from Cons.IH[OF sel' this] have "Suc n \<le> i" "i - Suc n < length rest"
      "select_cells cols (rest ! (i - Suc n)) labels = Inr cs" by auto
    moreover from \<open>Suc n \<le> i\<close> have "i - n = Suc (i - Suc n)" by simp
    ultimately show ?thesis by simp
  qed
qed

lemma positive_loop_filter:
  "positive_loop js rs = filter (\<lambda>(i, e, as). \<forall>j \<in> set js. j < length as \<and> positive (as ! j)) rs"
proof (induction js arbitrary: rs)
  case Nil
  then show ?case by simp
next
  case (Cons j js)
  show ?case
    by (simp add: Cons.IH) (rule filter_cong, auto)
qed

lemma positive_Some: "positive a = (\<exists>v. a = Some v \<and> 0 < v)"
  by (cases a) (auto simp: positive_def)

lemma clean_dataframe_retained:
  assumes "clean_dataframe df entity_col amount_cols = Inr out"
    and "r \<in> set out" and "j < length amount_cols"
  shows "r_idx r < length (rows df)
     \<and> (\<exists>c v. get_cell (columns df) (rows df ! r_idx r) (amount_cols ! j) = Inr c
            \<and> clean_amount c = Some v \<and> 0 < v \<and> r_amounts r ! j = Some v)"
proof -
  let ?labels = "entity_col # amount_cols"
  from assms(1) obtain selected where
    sel: "select_rows (columns df) ?labels 0 (rows df) = Inr selected"
    by (auto simp: clean_dataframe_def split: if_splits sum.splits)
  define df1 where "df1 = filter (\<lambda>(i, cs). \<not> list_all isna (tl cs)) selected"
  define df2 where "df2 = map (\<lambda>(i, cs). (i, hd cs, map clean_amount (tl cs))) df1"
  define df3 where "df3 = filter (\<lambda>(i, e, as). \<not> list_all (\<lambda>a. a = None) as) df2"
  define df4 where "df4 = positive_loop [0 ..< length amount_cols] df3"
  define df5 where "df5 = map (\<lambda>(i, e, as). (i, strip (py_str e), as)) df4"
  define df6 where "df6 = filter (\<lambda>(i, e, as). e \<noteq> ''nan'') df5"
  define df7 where "df7 = filter (\<lambda>(i, e, as). e \<noteq> []) df6"
  from assms(1) sel have out: "out = map (\<lambda>(i, e, as). \<lparr>r_idx = i, r_entity = e, r_amounts = as, r_week = NaN\<rparr>) df7"
    by (auto simp: clean_dataframe_def Let_def df1_def df2_def df3_def df4_def df5_def df6_def df7_def
             split: if_splits)
  from assms(2) out obtain e as where r7: "(r_idx r, e, as) \<in> set df7" and ras: "r_amounts r = as"
    by auto
  then have "(r_idx r, e, as) \<in> set df5" by (simp add: df7_def df6_def)
  then obtain e0 where r4: "(r_idx r, e0, as) \<in> set df4" by (auto simp: df5_def)
  then have pos: "\<forall>j < length amount_cols. j < length as \<and> positive (as ! j)"
    and r3: "(r_idx r, e0, as) \<in> set df3"
    by (auto simp: df4_def positive_loop_filter)
  from r3 have "(r_idx r, e0, as) \<in> set df2" by (simp add: df3_def)
  then obtain cs where r1: "(r_idx r, cs) \<in> set df1" and as: "as = map clean_amount (tl cs)"
    by (auto simp: df2_def)
  then have rs: "(r_idx r, cs) \<in> set selected" by (simp add: df1_def)
  from select_rows_mem[OF sel rs] have i: "r_idx r < length (rows df)"
    and cells: "select_cells (columns df) (rows df ! r_idx r) ?labels = Inr cs" by auto
  from select_cells_nth[OF cells] have len: "length cs = Suc (length amount_cols)"
    and nth: "\<forall>m < Suc (length amount_cols). get_cell (columns df) (rows df ! r_idx r) (?labels ! m) = Inr (cs ! m)"
    by auto
  from nth assms(3) have g: "get_cell (columns df) (rows df ! r_idx r) (amount_cols ! j) = Inr (cs ! Suc j)"
    by (metis Suc_less_eq nth_Cons_Suc)
  from len assms(3) have tl: "tl cs ! j = cs ! Suc j" by (cases cs) auto
  from pos assms(3) have "positive (as ! j)" by blast
  moreover from as len assms(3) tl have "as ! j = clean_amount (cs ! Suc j)" by simp
  ultimately obtain v where "clean_amount (cs ! Suc j) = Some v" "0 < v" "as ! j = Some v"
    by (auto simp: positive_Some)
  with i g ras show ?thesis by auto
qed

text \<open>
  Claim C10. In a table with distinct column labels, for distinct entity and amount
  labels, a row that \<^verbatim>\<open>clean_dataframe\<close> retains has, in every listed amount column, a
  cell that sanitizes to a strictly positive number, and the cleaned row carries that
  number. Hence a row with a cell in any amount column, the first or another, that is
  missing, unparsable or not positive is not among the retained rows, from which alone
  the totals are summed.
\<close>

theorem clean_dataframe_positive_amounts:
  assumes "distinct (columns df)" and "distinct (entity_col # amount_cols)"
    and "clean_dataframe df entity_col amount_cols = Inr out"
    and "j < length amount_cols"
  shows "(\<forall>r \<in> set out. r_idx r < length (rows df)
            \<and> (\<exists>c v. get_cell (columns df) (rows df ! r_idx r) (amount_cols ! j) = Inr c
                  \<and> clean_amount c = Some v \<and> 0 < v \<and> r_amounts r ! j = Some v))
     \<and> (\<forall>i c. get_cell (columns df) (rows df ! i) (amount_cols ! j) = Inr c
              \<and> (clean_amount c = None \<or> (\<exists>v. clean_amount c = Some v \<and> v \<le> 0))
            \<longrightarrow> i \<notin> r_idx ` set out)"
proof -
  have retained: "\<forall>r \<in> set out. r_idx r < length (rows df)
            \<and> (\<exists>c v. get_cell (columns df) (rows df ! r_idx r) (amount_cols ! j) = Inr c
                  \<and> clean_amount c = Some v \<and> 0 < v \<and> r_amounts r ! j = Some v)"
    using clean_dataframe_retained[OF assms(3) _ assms(4)] by blast
  have dropped: "i \<notin> r_idx ` set out"
    if a: "get_cell (columns df) (rows df ! i) (amount_cols ! j) = Inr c
           \<and> (clean_amount c = None \<or> (\<exists>v. clean_amount c = Some v \<and> v \<le> 0))" for i c
  proof
    assume "i \<in> r_idx ` set out"
    then obtain r where r: "r \<in> set out" "r_idx r = i" by auto
    from clean_dataframe_retained[OF assms(3) r(1) assms(4)] r(2) obtain c' v where
      "get_cell (columns df) (rows df ! i) (amount_cols ! j) = Inr c'"
      "clean_amount c' = Some v" "0 < v" by auto
    with a show False by auto
  qed
  from retained dropped show ?thesis by blast
qed

lemma two_amount_table_cleaned:
  "clean_dataframe two_amount_table ''Dispatch'' [''Amount'', ''Fee'']
     = Inr [\<lparr>r_idx = 0, r_entity = ''Ali'', r_amounts = [Some 500, Some 20], r_week = NaN\<rparr>]"
  by (simp add: two_amount_table_def clean_dataframe_def get_cell_def positive_def text_defs)

theorem clean_dataframe_positive_amounts_witness:
  "distinct (columns two_amount_table) \<and> distinct [''Dispatch'', ''Amount'', ''Fee'']
   \<and> clean_dataframe two_amount_table ''Dispatch'' [''Amount'', ''Fee'']
       = Inr [\<lparr>r_idx = 0, r_entity = ''Ali'', r_amounts = [Some 500, Some 20], r_week = NaN\<rparr>]
   \<and> (1::nat) < length [''Amount'', ''Fee'']
   \<and> get_cell (columns two_amount_table) (rows two_amount_table ! 1) ''Fee'' = Inr (Str ''n/a'')
   \<and> clean_amount (Str ''300'') = Some 300 \<and> clean_amount (Str ''n/a'') = None
   \<and> 1 \<notin> r_idx ` set [\<lparr>r_idx = 0, r_entity = ''Ali'', r_amounts = [Some 500, Some 20], r_week = NaN\<rparr>]"
proof -
  have d1: "distinct (columns two_amount_table)" by (simp add: two_amount_table_def)
  have d2: "distinct (''Dispatch'' # [''Amount'', ''Fee''])" by simp
  have j: "(1::nat) < length [''Amount'', ''Fee'']" by simp
  have g: "get_cell (columns two_amount_table) (rows two_amount_table ! 1) ([''Amount'', ''Fee''] ! 1)
             = Inr (Str ''n/a'')"
    by (simp add: two_amount_table_def get_cell_def)
  have c1: "clean_amount (Str ''300'') = Some 300" by (simp add: text_defs)
  have c2: "clean_amount (Str ''n/a'') = None" by (simp add: text_defs)
  from clean_dataframe_positive_amounts[OF d1 d2 two_amount_table_cleaned j] g c2
  have "1 \<notin> r_idx ` set [\<lparr>r_idx = 0, r_entity = ''Ali'', r_amounts = [Some 500, Some 20], r_week = NaN\<rparr>]"
    by blast
  with d1 d2 two_amount_table_cleaned j g c1 c2 show ?thesis by simp
qed


section \<open>Earnings of one entity\<close>

lemma find_config_None_iff:
  "(find_config e cfg = None) = (\<forall>k \<in> fst ` set cfg. lower k \<noteq> lower e)"
  by (induction cfg) (auto split: if_splits)

lemma find_config_first:
  assumes "cfg = pre @ (k, d) # post" "lower k = lower e"
    "\<forall>k' \<in> fst ` set pre. lower k' \<noteq> lower e"
  shows "find_config e cfg = Some (k, d)"
  using assms(3) unfolding assms(1)
  by (induction pre) (use assms(2) in auto)

lemma find_config_Some:
  "find_config e cfg = Some (k, d) \<Longrightarrow> (k, d) \<in> set cfg \<and> lower k = lower e"
  by (induction cfg) (auto split: if_splits)

text \<open>The key under which the result for an entity is stored.\<close>

lemma entity_name_calculate_earnings:
  "entity_name (calculate_earnings e t category cfg)
     = Some (case find_config e cfg of None \<Rightarrow> e | Some (k, d) \<Rightarrow> k)"
  by (cases "calculation_method category")
     (auto simp: calculate_earnings_def split: option.splits)

text \<open>
  Claim C6. \<^verbatim>\<open>_calculate_earnings\<close> compares the entity with the configuration keys
  after lowercasing both. When no key matches, the result is named as the data names
  the entity; when a key matches, and no key before it in the configuration does, the
  result is named by that key as the configuration spells it. This holds for every
  calculation method. The data entity \<^verbatim>\<open>ali\<close> with the key \<^verbatim>\<open>Ali\<close> is named \<^verbatim>\<open>Ali\<close>.
\<close>

theorem calculate_earnings_config_casing:
  "((\<forall>k \<in> fst ` set cfg. lower k \<noteq> lower e)
      \<longrightarrow> entity_name (calculate_earnings e t category cfg) = Some e)
   \<and> (\<forall>pre k d post. cfg = pre @ (k, d) # post \<and> lower k = lower e
          \<and> (\<forall>k' \<in> fst ` set pre. lower k' \<noteq> lower e)
      \<longrightarrow> entity_name (calculate_earnings e t category cfg) = Some k)
   \<and> entity_name (calculate_earnings ''ali'' t category ((''Ali'', d0) # rest)) = Some ''Ali''"
proof -
  have a: "entity_name (calculate_earnings e t category cfg) = Some e"
    if "\<forall>k \<in> fst ` set cfg. lower k \<noteq> lower e"
    using that find_config_None_iff[of e cfg] by (simp add: entity_name_calculate_earnings)
  have b: "entity_name (calculate_earnings e t category cfg) = Some k"
    if "cfg = pre @ (k, d) # post \<and> lower k = lower e
          \<and> (\<forall>k' \<in> fst ` set pre. lower k' \<noteq> lower e)" for pre k d post
    using that find_config_first[of cfg pre k d post e]
    by (simp add: entity_name_calculate_earnings)
  have c: "entity_name (calculate_earnings ''ali'' t category ((''Ali'', d0) # rest)) = Some ''Ali''"
    by (simp add: entity_name_calculate_earnings lower_def lower_char_def)
  from a b c show ?thesis by blast
qed

theorem calculate_earnings_config_casing_witness:
  "fst ` set ali_config = {''Ali''} \<and> lower ''Ali'' \<noteq> lower ''Bob''
   \<and> entity_name (calculate_earnings ''Bob'' 100 dispatcher_category ali_config) = Some ''Bob''
   \<and> ali_config = [] @ (''Ali'', \<lparr>cfg_type = Some ''percentage'', cfg_value = Some 10\<rparr>) # []
   \<and> lower ''Ali'' = lower ''ali''
   \<and> entity_name (calculate_earnings ''ali'' 100 dispatcher_category ali_config) = Some ''Ali''"
proof -
  have h1: "\<forall>k \<in> fst ` set ali_config. lower k \<noteq> lower ''Bob''"
    by (simp add: ali_config_def lower_def lower_char_def)
  have h2: "ali_config = [] @ (''Ali'', \<lparr>cfg_type = Some ''percentage'', cfg_value = Some 10\<rparr>) # []
     \<and> lower ''Ali'' = lower ''ali'' \<and> (\<forall>k' \<in> fst ` set []. lower k' \<noteq> lower ''ali'')"
    by (simp add: ali_config_def lower_def lower_char_def)
  from calculate_earnings_config_casing[of ali_config "''Bob''" 100 dispatcher_category] h1
  have r1: "entity_name (calculate_earnings ''Bob'' 100 dispatcher_category ali_config) = Some ''Bob''"
    by blast
  from calculate_earnings_config_casing[of ali_config "''ali''" 100 dispatcher_category] h2
  have r2: "entity_name (calculate_earnings ''ali'' 100 dispatcher_category ali_config) = Some ''Ali''"
    by blast
  have h3: "fst ` set ali_config = {''Ali''} \<and> lower ''Ali'' \<noteq> lower ''Bob''"
    by (simp add: ali_config_def lower_def lower_char_def)
  from h2 h3 r1 r2 show ?thesis by simp
qed

text \<open>
  Claim C7. Under the flat-rate method the earnings do not depend on the total: when a
  configuration key matches the entity up to case, and no key before it does, and its
  entry holds the value \<open>v\<close>, the earnings are \<open>v\<close> and the reported flat rate is
  \<open>v\<close>; when no key matches, the earnings are 0. A total of 1000 with the configured
  value 300 earns 300.
\<close>

theorem flat_rate_volume_independent:
  assumes "calculation_method category = FLAT_RATE"
  shows "(\<forall>pre k d post v. cfg = pre @ (k, d) # post \<and> lower k = lower e
            \<and> (\<forall>k' \<in> fst ` set pre. lower k' \<noteq> lower e) \<and> cfg_value d = Some v
          \<longrightarrow> earnings (calculate_earnings e t category cfg) = v
              \<and> flat_rate (calculate_earnings e t category cfg) = Some v)
     \<and> ((\<forall>k \<in> fst ` set cfg. lower k \<noteq> lower e)
          \<longrightarrow> earnings (calculate_earnings e t category cfg) = 0)
     \<and> earnings (calculate_earnings e t category cfg) = earnings (calculate_earnings e t' category cfg)
     \<and> earnings (calculate_earnings ''Ali'' 1000 category flat_config) = 300"
proof -
  have a: "earnings (calculate_earnings e t category cfg) = v
              \<and> flat_rate (calculate_earnings e t category cfg) = Some v"
    if "cfg = pre @ (k, d) # post \<and> lower k = lower e
            \<and> (\<forall>k' \<in> fst ` set pre. lower k' \<noteq> lower e) \<and> cfg_value d = Some v" for pre k d post v
    using that find_config_first[of cfg pre k d post e] assms
    by (simp add: calculate_earnings_def rate_of_def get_value_def)
  have b: "earnings (calculate_earnings e t category cfg) = 0"
    if "\<forall>k \<in> fst ` set cfg. lower k \<noteq> lower e"
    using that find_config_None_iff[of e cfg] assms
    by (simp add: calculate_earnings_def rate_of_def)
  have c: "earnings (calculate_earnings e t category cfg) = earnings (calculate_earnings e t' category cfg)"
    using assms by (simp add: calculate_earnings_def split: option.splits)
  have d: "earnings (calculate_earnings ''Ali'' 1000 category flat_config) = 300"
    using assms by (simp add: calculate_earnings_def flat_config_def rate_of_def get_value_def)
  from a b c d show ?thesis by blast
qed

theorem flat_rate_volume_independent_witness:
  "calculation_method (dispatcher_category\<lparr>calculation_method := FLAT_RATE\<rparr>) = FLAT_RATE
   \<and> flat_config = [] @ (''Ali'', \<lparr>cfg_type = Some ''flat_rate'', cfg_value = Some 300\<rparr>) # []
   \<and> lower ''Ali'' = lower ''ALI''
   \<and> earnings (calculate_earnings ''ALI'' 1000
        (dispatcher_category\<lparr>calculation_method := FLAT_RATE\<rparr>) flat_config) = 300
   \<and> flat_rate (calculate_earnings ''ALI'' 1000
        (dispatcher_category\<lparr>calculation_method := FLAT_RATE\<rparr>) flat_config) = Some 300
   \<and> fst ` set flat_config = {''Ali''} \<and> lower ''Ali'' \<noteq> lower ''Bob''
   \<and> earnings (calculate_earnings ''Bob'' 1000
        (dispatcher_category\<lparr>calculation_method := FLAT_RATE\<rparr>) flat_config) = 0"
proof -
  let ?cat = "dispatcher_category\<lparr>calculation_method := FLAT_RATE\<rparr>"
  have m: "calculation_method ?cat = FLAT_RATE" by simp
  have h1: "flat_config = [] @ (''Ali'', \<lparr>cfg_type = Some ''flat_rate'', cfg_value = Some 300\<rparr>) # []
     \<and> lower ''Ali'' = lower ''ALI'' \<and> (\<forall>k' \<in> fst ` set []. lower k' \<noteq> lower ''ALI'')
     \<and> cfg_value \<lparr>cfg_type = Some ''flat_rate'', cfg_value = Some 300\<rparr> = Some 300"
    by (simp add: flat_config_def lower_def lower_char_def)
  have h2: "\<forall>k \<in> fst ` set flat_config. lower k \<noteq> lower ''Bob''"
    by (simp add: flat_config_def lower_def lower_char_def)
  from flat_rate_volume_independent[OF m, of flat_config "''ALI''" 1000] h1
  have r1: "earnings (calculate_earnings ''ALI'' 1000 ?cat flat_config) = 300
     \<and> flat_rate (calculate_earnings ''ALI'' 1000 ?cat flat_config) = Some 300"
    by blast
  from flat_rate_volume_independent[OF m, of flat_config "''Bob''" 1000] h2
  have r2: "earnings (calculate_earnings ''Bob'' 1000 ?cat flat_config) = 0"
    by blast
  have h3: "fst ` set flat_config = {''Ali''} \<and> lower ''Ali'' \<noteq> lower ''Bob''"
    by (simp add: flat_config_def lower_def lower_char_def)
  from m h1 h3 r1 r2 show ?thesis by simp
qed


section \<open>Reconciliation\<close>

lemma store_result_calculate_earnings:
  "store_result d (calculate_earnings e t category cfg)
     = AList.update (case find_config e cfg of None \<Rightarrow> e | Some (k, x) \<Rightarrow> k)
         (calculate_earnings e t category cfg) d"
  by (simp add: store_result_def entity_name_calculate_earnings)

lemma result_key_lower:
  "lower (case find_config e cfg of None \<Rightarrow> e | Some (k, x) \<Rightarrow> k) = lower e"
  by (auto split: option.splits dest: find_config_Some)

lemma find_SomeD: "find P xs = Some x \<Longrightarrow> x \<in> set xs \<and> P x"
  by (induction xs) (auto split: if_splits)

lemma find_key_exists: "(find (\<lambda>(e, t). f e = n) xs \<noteq> None) = (n \<in> f ` fst ` set xs)"
  by (induction xs) (auto simp: image_iff)

lemma find_append_cases:
  "find P (xs @ ys) = (case find P xs of Some x \<Rightarrow> Some x | None \<Rightarrow> find P ys)"
  by (induction xs) auto

lemma loop_map_of:
  "map_of (foldl (\<lambda>d (e, t). store_result d (calculate_earnings e t category cfg)) d0 totals) n
     = (case find (\<lambda>(e, t). (case find_config e cfg of None \<Rightarrow> e | Some (k, x) \<Rightarrow> k) = n) (rev totals) of
          Some (e, t) \<Rightarrow> Some (calculate_earnings e t category cfg)
        | None \<Rightarrow> map_of d0 n)"
proof (induction totals arbitrary: d0)
  case Nil
  then show ?case by simp
next
  case (Cons p totals)
  let ?f = "\<lambda>d (e, t). store_result d (calculate_earnings e t category cfg)"
  let ?P = "\<lambda>(e, t). (case find_config e cfg of None \<Rightarrow> e | Some (k, x) \<Rightarrow> k) = n"
  obtain e t where p: "p = (e, t)" by (cases p)
  have step: "map_of (?f d0 p) n = (if ?P p then Some (calculate_earnings e t category cfg) else map_of d0 n)"
    by (simp add: p store_result_calculate_earnings update_conv')
  have "map_of (foldl ?f d0 (p # totals)) n = map_of (foldl ?f (?f d0 p) totals) n" by simp
  also have "\<dots> = (case find ?P (rev totals) of
          Some (e, t) \<Rightarrow> Some (calculate_earnings e t category cfg)
        | None \<Rightarrow> map_of (?f d0 p) n)"
    by (rule Cons.IH)
  also have "\<dots> = (case find ?P (rev (p # totals)) of
          Some (e, t) \<Rightarrow> Some (calculate_earnings e t category cfg)
        | None \<Rightarrow> map_of d0 n)"
    unfolding step by (simp add: find_append_cases p split: option.splits)
  finally show ?case .
qed

lemma loop_keys:
  "fst ` set (foldl (\<lambda>d (e, t). store_result d (calculate_earnings e t category cfg)) d0 totals)
     = fst ` set d0 \<union> (\<lambda>e. case find_config e cfg of None \<Rightarrow> e | Some (k, x) \<Rightarrow> k) ` fst ` set totals"
  (is "fst ` set ?loop = _ \<union> ?key ` _")
proof -
  have "(n \<in> fst ` set ?loop) = (n \<in> fst ` set d0 \<or> n \<in> ?key ` fst ` set totals)" for n
  proof -
    have "(n \<in> fst ` set ?loop) = (map_of ?loop n \<noteq> None)"
      by (simp add: map_of_eq_None_iff)
    also have "\<dots> = (find (\<lambda>(e, t). ?key e = n) (rev totals) \<noteq> None \<or> map_of d0 n \<noteq> None)"
      by (auto simp: loop_map_of split: option.splits)
    also have "\<dots> = (n \<in> fst ` set d0 \<or> n \<in> ?key ` fst ` set totals)"
    proof -
      have "(find (\<lambda>(e, t). ?key e = n) (rev totals) \<noteq> None) = (n \<in> ?key ` fst ` set totals)"
        using find_key_exists[of ?key n "rev totals"] by simp
      moreover have "(map_of d0 n \<noteq> None) = (n \<in> fst ` set d0)"
        by (simp add: map_of_eq_None_iff)
      ultimately show ?thesis by blast
    qed
    finally show ?thesis .
  qed
  then show ?thesis by blast
qed

lemma zero_fill_map_of:
  "map_of (zero_fill cfg d) c
     = (case map_of d c of Some x \<Rightarrow> Some x | None \<Rightarrow> map_option zero_entry (map_of cfg c))"
proof (induction cfg arbitrary: d)
  case Nil
  then show ?case by (simp split: option.splits)
next
  case (Cons p cfg)
  obtain k data where p: "p = (k, data)" by (cases p)
  show ?case
  proof (cases "k \<in> fst ` set d")
    case True
    then have "map_of d k \<noteq> None" by (simp add: map_of_eq_None_iff)
    with True show ?thesis by (auto simp: p Cons.IH split: option.splits)
  next
    case False
    then have "map_of d k = None" by (simp add: map_of_eq_None_iff)
    with False show ?thesis
      by (auto simp: p Cons.IH map_add_def split: option.splits)
  qed
qed

lemma scope_results_zero:
  assumes "map_of cfg c = Some data" and "\<forall>e \<in> fst ` set totals. lower e \<noteq> lower c"
  shows "map_of (scope_results category cfg totals) c = Some (zero_entry data)"
proof -
  let ?loop = "foldl (\<lambda>d (e, t). store_result d (calculate_earnings e t category cfg)) [] totals"
  have "c \<notin> fst ` set ?loop"
  proof
    assume "c \<in> fst ` set ?loop"
    then obtain e where "e \<in> fst ` set totals"
      "c = (case find_config e cfg of None \<Rightarrow> e | Some (k, x) \<Rightarrow> k)"
      by (auto simp: loop_keys)
    then show False using assms(2) result_key_lower[of e cfg] by metis
  qed
  then have "map_of ?loop c = None" by (simp add: map_of_eq_None_iff)
  then show ?thesis using assms(1) by (simp add: scope_results_def zero_fill_map_of)
qed

lemma scope_results_unmatched:
  assumes "distinct (map fst totals)" and "(e, t) \<in> set totals"
    and "\<forall>k \<in> fst ` set cfg. lower k \<noteq> lower e"
  shows "map_of (scope_results category cfg totals) e = Some (calculate_earnings e t category cfg)"
proof -
  let ?key = "\<lambda>e. case find_config e cfg of None \<Rightarrow> e | Some (k, x) \<Rightarrow> k"
  let ?loop = "foldl (\<lambda>d (e, t). store_result d (calculate_earnings e t category cfg)) [] totals"
  have none: "find_config e cfg = None" using assms(3) by (simp add: find_config_None_iff)
  have only: "e' = e" if "?key e' = e" for e'
  proof (cases "find_config e' cfg")
    case None
    with that show ?thesis by simp
  next
    case (Some kd)
    then obtain k d where kd: "kd = (k, d)" by (cases kd)
    with Some that have "k = e" by simp
    with Some kd find_config_Some[of e' cfg k d] have "e \<in> fst ` set cfg" "lower e = lower e'"
      by force+
    moreover from Some kd \<open>k = e\<close> find_config_Some[of e' cfg e d] have "(e, d) \<in> set cfg" by simp
    ultimately show ?thesis using assms(3) by force
  qed
  have "(e, t) \<in> set (rev totals)" using assms(2) by simp
  moreover have "?key e = e" using none by simp
  ultimately obtain e' t' where f: "find (\<lambda>(e, t). ?key e = n) (rev totals) = Some (e', t')" if "n = e" for n
    by (cases "find (\<lambda>(e', t). ?key e' = e) (rev totals)") (auto simp: find_None_iff)
  from find_SomeD[OF f[OF refl]] have "(e', t') \<in> set totals" "?key e' = e"
    by auto
  with only have "e' = e" by blast
  with \<open>(e', t') \<in> set totals\<close> assms(1,2) have "t' = t"
    by (meson eq_key_imp_eq_value)
  with f[OF refl] \<open>e' = e\<close> have "map_of ?loop e = Some (calculate_earnings e t category cfg)"
    by (simp add: loop_map_of)
  then show ?thesis by (simp add: scope_results_def zero_fill_map_of)
qed


lemma reconciled_scope:
  assumes "distinct (map fst totals)" and "fst ` set totals = r_entity ` set scope"
    and "\<forall>(e, t) \<in> set totals. t = sum_list (map first_amount (filter (\<lambda>r. r_entity r = e) scope))"
  shows "reconciled category cfg scope (scope_results category cfg totals)"
proof (intro conjI allI impI ballI)
  fix c data
  assume a: "map_of cfg c = Some data \<and> (\<forall>r \<in> set scope. lower (r_entity r) \<noteq> lower c)"
  then have "\<forall>e \<in> fst ` set totals. lower e \<noteq> lower c" using assms(2) by auto
  from scope_results_zero[OF _ this] a
  show "map_of (scope_results category cfg totals) c
          = Some \<lparr>entity_name = None, total_amount = 0, percentage = Some (get_value data),
                  flat_rate = None, earnings = 0\<rparr>"
    by (simp add: zero_entry_def)
next
  fix r
  assume r: "r \<in> set scope" and un: "\<forall>k \<in> fst ` set cfg. lower k \<noteq> lower (r_entity r)"
  let ?e = "r_entity r"
  let ?t = "sum_list (map first_amount (filter (\<lambda>r'. r_entity r' = ?e) scope))"
  from r assms(2) obtain t where et: "(?e, t) \<in> set totals" by force
  with assms(3) have t: "t = ?t" by auto
  have none: "find_config ?e cfg = None" using un by (simp add: find_config_None_iff)
  let ?ed = "calculate_earnings ?e ?t category cfg"
  from scope_results_unmatched[OF assms(1) et un] t
  have m: "map_of (scope_results category cfg totals) ?e = Some ?ed" by simp
  have "total_amount ?ed = ?t \<and> percentage ?ed \<in> {None, Some 0} \<and> flat_rate ?ed \<in> {None, Some 0}
         \<and> (calculation_method category = PERCENTAGE \<longrightarrow> percentage ?ed = Some 0 \<and> earnings ?ed = 0)
         \<and> (calculation_method category = FLAT_RATE \<longrightarrow> flat_rate ?ed = Some 0 \<and> earnings ?ed = 0)"
    using none by (cases "calculation_method category") (simp_all add: calculate_earnings_def rate_of_def)
  with m show "\<exists>ed. map_of (scope_results category cfg totals) ?e = Some ed
               \<and> total_amount ed = ?t
               \<and> percentage ed \<in> {None, Some 0} \<and> flat_rate ed \<in> {None, Some 0}
               \<and> (calculation_method category = PERCENTAGE
                    \<longrightarrow> percentage ed = Some 0 \<and> earnings ed = 0)
               \<and> (calculation_method category = FLAT_RATE
                    \<longrightarrow> flat_rate ed = Some 0 \<and> earnings ed = 0)"
    by blast
qed

lemma entity_totals_distinct: "distinct (map fst (entity_totals rs))"
  by (simp add: entity_totals_def comp_def)

lemma entity_totals_keys: "fst ` set (entity_totals rs) = r_entity ` set rs"
  by (force simp: entity_totals_def)

lemma entity_totals_sum:
  "\<forall>(e, t) \<in> set (entity_totals rs). t = sum_list (map first_amount (filter (\<lambda>r. r_entity r = e) rs))"
  by (auto simp: entity_totals_def)

lemma reconciled_overall:
  "reconciled category cfg rs (scope_results category cfg (entity_totals rs))"
  by (rule reconciled_scope[OF entity_totals_distinct entity_totals_keys entity_totals_sum])

text \<open>The aggregate rows of one week.\<close>

lemma week_rows_distinct:
  "distinct (map fst (map snd (filter (\<lambda>(w', e, t). w' = w) (weekly_totals rs))))"
proof -
  let ?keys = "sort_key (\<lambda>(w, e). (cell_rank w, e))
            (remdups (map (\<lambda>r. (r_week r, r_entity r)) (filter (\<lambda>r. r_week r \<noteq> NaN) rs)))"
  let ?g = "\<lambda>(w, e). (w, e, sum_list (map first_amount (filter (\<lambda>r. r_week r = w \<and> r_entity r = e) rs)))"
  have d: "distinct ?keys" by simp
  have "map fst (map snd (filter (\<lambda>(w', e, t). w' = w) (map ?g ks)))
          = map snd (filter (\<lambda>(w', e). w' = w) ks)" for ks
    by (induction ks) auto
  then have "map fst (map snd (filter (\<lambda>(w', e, t). w' = w) (map ?g ?keys)))
          = map snd (filter (\<lambda>(w', e). w' = w) ?keys)" .
  moreover have "distinct (map snd (filter (\<lambda>(w', e). w' = w) ?keys))"
    using d by (auto simp: distinct_map inj_on_def)
  ultimately show ?thesis by (simp add: weekly_totals_def)
qed

lemma week_rows_mem:
  "((e, t) \<in> set (map snd (filter (\<lambda>(w', e, t). w' = w) (weekly_totals rs))))
     = (w \<noteq> NaN \<and> (\<exists>r \<in> set rs. r_week r = w \<and> r_entity r = e)
        \<and> t = sum_list (map first_amount (filter (\<lambda>r. r_week r = w \<and> r_entity r = e) rs)))"
  by (auto simp: weekly_totals_def image_iff)

lemma reconciled_week:
  assumes "w \<noteq> NaN"
  shows "reconciled category cfg (filter (\<lambda>r. r_week r = w) rs)
           (scope_results category cfg (map snd (filter (\<lambda>(w', e, t). w' = w) (weekly_totals rs))))"
proof (rule reconciled_scope[OF week_rows_distinct])
  show "fst ` set (map snd (filter (\<lambda>(w', e, t). w' = w) (weekly_totals rs)))
          = r_entity ` set (filter (\<lambda>r. r_week r = w) rs)"
  proof (intro set_eqI iffI)
    fix e assume "e \<in> fst ` set (map snd (filter (\<lambda>(w', e, t). w' = w) (weekly_totals rs)))"
    then obtain t where "(e, t) \<in> set (map snd (filter (\<lambda>(w', e, t). w' = w) (weekly_totals rs)))"
      by force
    then show "e \<in> r_entity ` set (filter (\<lambda>r. r_week r = w) rs)"
      unfolding week_rows_mem by auto
  next
    fix e assume "e \<in> r_entity ` set (filter (\<lambda>r. r_week r = w) rs)"
    then have "\<exists>r \<in> set rs. r_week r = w \<and> r_entity r = e" by auto
    with assms have "(e, sum_list (map first_amount (filter (\<lambda>r. r_week r = w \<and> r_entity r = e) rs)))
        \<in> set (map snd (filter (\<lambda>(w', e, t). w' = w) (weekly_totals rs)))"
      unfolding week_rows_mem by simp
    then show "e \<in> fst ` set (map snd (filter (\<lambda>(w', e, t). w' = w) (weekly_totals rs)))"
      by force
  qed
next
  show "\<forall>(e, t) \<in> set (map snd (filter (\<lambda>(w', e, t). w' = w) (weekly_totals rs))).
          t = sum_list (map first_amount (filter (\<lambda>r. r_entity r = e) (filter (\<lambda>r. r_week r = w) rs)))"
  proof (clarify)
    fix e t assume "(e, t) \<in> set (map snd (filter (\<lambda>(w', e, t). w' = w) (weekly_totals rs)))"
    then have "t = sum_list (map first_amount (filter (\<lambda>r. r_week r = w \<and> r_entity r = e) rs))"
      unfolding week_rows_mem by simp
    moreover have "filter (\<lambda>r. r_entity r = e) (filter (\<lambda>r. r_week r = w) rs)
                     = filter (\<lambda>r. r_week r = w \<and> r_entity r = e) rs"
      by (simp add: conj_commute)
    ultimately show "t = sum_list (map first_amount (filter (\<lambda>r. r_entity r = e) (filter (\<lambda>r. r_week r = w) rs)))"
      by simp
  qed
qed

lemma week_list_not_NaN: "w \<in> set (unique (map fst (weekly_totals rs))) \<Longrightarrow> w \<noteq> NaN"
  by (auto simp: unique_def weekly_totals_def)

lemma week_list_set:
  "set (unique (map fst (weekly_totals rs))) = {w. w \<noteq> NaN \<and> (\<exists>r \<in> set rs. r_week r = w)}"
  by (auto simp: unique_def weekly_totals_def image_iff)

lemma unique_distinct: "distinct (unique xs)"
  by (simp add: unique_def)

lemma reconciled_ungrouped:
  assumes "process_without_grouping df category cfg = Inr res"
  shows "reconciled category cfg (clean_rows df) (overall res)"
proof -
  from assms have "overall res = scope_results category cfg (entity_totals (clean_rows df))"
    by (auto simp: process_without_grouping_def split: if_splits)
  then show ?thesis
    using reconciled_overall[where category = category and cfg = cfg and rs = "clean_rows df"]
    by simp
qed

lemma reconciled_grouped:
  assumes a: "process_with_grouping df category cfg = Inr res"
  shows "reconciled category cfg (clean_rows df) (overall res)
          \<and> (\<exists>ws. weeks res = Some ws
                \<and> distinct (map fst ws)
                \<and> set (map fst ws) = {w. w \<noteq> NaN \<and> (\<exists>r \<in> set (clean_rows df). r_week r = w)}
                \<and> (\<forall>(w, d) \<in> set ws.
                      reconciled category cfg (filter (\<lambda>r. r_week r = w) (clean_rows df)) d))"
proof -
  let ?wd = "weekly_totals (clean_rows df)"
  let ?ws = "map (\<lambda>w. (w, scope_results category cfg (map snd (filter (\<lambda>(w', e, t). w' = w) ?wd))))
                 (unique (map fst ?wd))"
  from a have o: "overall res = scope_results category cfg (entity_totals (clean_rows df))"
    and w: "weeks res = Some ?ws"
    by (auto simp: process_with_grouping_def Let_def split: if_splits)
  from o have 1: "reconciled category cfg (clean_rows df) (overall res)"
    using reconciled_overall[where category = category and cfg = cfg and rs = "clean_rows df"]
    by simp
  have each: "reconciled category cfg (filter (\<lambda>r. r_week r = w) (clean_rows df)) d"
    if "(w, d) \<in> set ?ws" for w d
  proof -
    from that have wl: "w \<in> set (unique (map fst ?wd))"
      and d: "d = scope_results category cfg (map snd (filter (\<lambda>(w', e, t). w' = w) ?wd))"
      by auto
    from reconciled_week[OF week_list_not_NaN[OF wl],
           where category = category and cfg = cfg and rs = "clean_rows df"] d
    show ?thesis by simp
  qed
  have 2: "\<forall>(w, d) \<in> set ?ws.
                 reconciled category cfg (filter (\<lambda>r. r_week r = w) (clean_rows df)) d"
  proof (rule ballI)
    fix x assume x: "x \<in> set ?ws"
    obtain w d where wd: "x = (w, d)" by (cases x)
    from x wd have "(w, d) \<in> set ?ws" by simp
    from each[OF this]
    show "case x of (w, d) \<Rightarrow>
            reconciled category cfg (filter (\<lambda>r. r_week r = w) (clean_rows df)) d"
      unfolding wd prod.case .
  qed
  have fs: "map fst ?ws = unique (map fst ?wd)" by (simp add: comp_def)
  have 3: "distinct (map fst ?ws)" unfolding fs by (rule unique_distinct)
  have 4: "set (map fst ?ws) = {w. w \<noteq> NaN \<and> (\<exists>r \<in> set (clean_rows df). r_week r = w)}"
    unfolding fs by (rule week_list_set)
  have "weeks res = Some ?ws
                \<and> distinct (map fst ?ws)
                \<and> set (map fst ?ws) = {w. w \<noteq> NaN \<and> (\<exists>r \<in> set (clean_rows df). r_week r = w)}
                \<and> (\<forall>(w, d) \<in> set ?ws.
                      reconciled category cfg (filter (\<lambda>r. r_week r = w) (clean_rows df)) d)"
    by (rule conjI[OF w conjI[OF 3 conjI[OF 4 2]]])
  note body = this
  have "\<exists>ws. weeks res = Some ws
                \<and> distinct (map fst ws)
                \<and> set (map fst ws) = {w. w \<noteq> NaN \<and> (\<exists>r \<in> set (clean_rows df). r_week r = w)}
                \<and> (\<forall>(w, d) \<in> set ws.
                      reconciled category cfg (filter (\<lambda>r. r_week r = w) (clean_rows df)) d)"
    by (rule exI, rule body)
  note ex = this
  show ?thesis by (rule conjI[OF 1 ex])
qed

lemma ungrouped_returns:
  "amount_columns category \<noteq> [] \<Longrightarrow>
     \<exists>res. process_without_grouping df category cfg = Inr res \<and> weeks res = None"
  by (simp add: process_without_grouping_def)

lemma grouped_returns:
  "amount_columns category \<noteq> [] \<and> grouping_columns category = [''Week''] \<and> has_week df \<Longrightarrow>
     \<exists>res. process_with_grouping df category cfg = Inr res"
  by (simp add: process_with_grouping_def clean_columns_def Let_def)

text \<open>
  Claim C5. \<^verbatim>\<open>_process_without_grouping\<close>, the path the bot takes, returns results
  whenever the category has an amount column, and \<^verbatim>\<open>_process_with_grouping\<close> returns
  results whenever moreover the grouping is by \<^verbatim>\<open>Week\<close> and the cleaned table has
  that column. In every result of either the overall dict over all cleaned rows is
  reconciled: a configured entity that no row of the scope matches
  up to case is there with total 0, earnings 0 and its configured value; an entity of
  the scope that no configuration key matches up to case is there under its own name
  with its total and with rate 0, and with earnings 0 under the percentage and the
  flat-rate method. Without grouping there is no dict of weeks. With grouping the weeks
  listed are, each once, exactly the week labels other than NaN of the cleaned rows, and
  the dict of every listed week is reconciled over the rows of that week.
\<close>

theorem reconciliation_outer_join:
  "(process_without_grouping df category cfg = Inr res
      \<longrightarrow> reconciled category cfg (clean_rows df) (overall res))
   \<and> (process_with_grouping df category cfg = Inr res
      \<longrightarrow> reconciled category cfg (clean_rows df) (overall res)
          \<and> (\<exists>ws. weeks res = Some ws
                \<and> distinct (map fst ws)
                \<and> set (map fst ws) = {w. w \<noteq> NaN \<and> (\<exists>r \<in> set (clean_rows df). r_week r = w)}
                \<and> (\<forall>(w, d) \<in> set ws.
                      reconciled category cfg (filter (\<lambda>r. r_week r = w) (clean_rows df)) d)))
   \<and> (amount_columns category \<noteq> []
      \<longrightarrow> (\<exists>res'. process_without_grouping df category cfg = Inr res' \<and> weeks res' = None
             \<and> reconciled category cfg (clean_rows df) (overall res')))
   \<and> (amount_columns category \<noteq> [] \<and> grouping_columns category = [''Week''] \<and> has_week df
      \<longrightarrow> (\<exists>res'. process_with_grouping df category cfg = Inr res'
             \<and> reconciled category cfg (clean_rows df) (overall res')
             \<and> (\<exists>ws. weeks res' = Some ws
                \<and> distinct (map fst ws)
                \<and> set (map fst ws) = {w. w \<noteq> NaN \<and> (\<exists>r \<in> set (clean_rows df). r_week r = w)}
                \<and> (\<forall>(w, d) \<in> set ws.
                      reconciled category cfg (filter (\<lambda>r. r_week r = w) (clean_rows df)) d))))"
proof -
  have A: "process_without_grouping df category cfg = Inr res
      \<longrightarrow> reconciled category cfg (clean_rows df) (overall res)"
    by (rule impI) (rule reconciled_ungrouped)
  have B: "process_with_grouping df category cfg = Inr res
      \<longrightarrow> reconciled category cfg (clean_rows df) (overall res)
          \<and> (\<exists>ws. weeks res = Some ws
                \<and> distinct (map fst ws)
                \<and> set (map fst ws) = {w. w \<noteq> NaN \<and> (\<exists>r \<in> set (clean_rows df). r_week r = w)}
                \<and> (\<forall>(w, d) \<in> set ws.
                      reconciled category cfg (filter (\<lambda>r. r_week r = w) (clean_rows df)) d))"
    by (rule impI) (rule reconciled_grouped)
  have C: "amount_columns category \<noteq> []
      \<longrightarrow> (\<exists>res'. process_without_grouping df category cfg = Inr res' \<and> weeks res' = None
             \<and> reconciled category cfg (clean_rows df) (overall res'))"
  proof (rule impI)
    assume "amount_columns category \<noteq> []"
    from ungrouped_returns[OF this, of df cfg] obtain res' where
      r: "process_without_grouping df category cfg = Inr res'" and n: "weeks res' = None"
      by (elim exE conjE)
    have "process_without_grouping df category cfg = Inr res' \<and> weeks res' = None
             \<and> reconciled category cfg (clean_rows df) (overall res')"
      by (rule conjI[OF r conjI[OF n reconciled_ungrouped[OF r]]])
    note body = this
    show "\<exists>res'. process_without_grouping df category cfg = Inr res' \<and> weeks res' = None
             \<and> reconciled category cfg (clean_rows df) (overall res')"
      by (rule exI, rule body)
  qed
  have D: "amount_columns category \<noteq> [] \<and> grouping_columns category = [''Week''] \<and> has_week df
      \<longrightarrow> (\<exists>res'. process_with_grouping df category cfg = Inr res'
             \<and> reconciled category cfg (clean_rows df) (overall res')
             \<and> (\<exists>ws. weeks res' = Some ws
                \<and> distinct (map fst ws)
                \<and> set (map fst ws) = {w. w \<noteq> NaN \<and> (\<exists>r \<in> set (clean_rows df). r_week r = w)}
                \<and> (\<forall>(w, d) \<in> set ws.
                      reconciled category cfg (filter (\<lambda>r. r_week r = w) (clean_rows df)) d)))"
  proof (rule impI)
    assume "amount_columns category \<noteq> [] \<and> grouping_columns category = [''Week''] \<and> has_week df"
    from grouped_returns[OF this, of cfg] obtain res' where
      r: "process_with_grouping df category cfg = Inr res'" ..
    have "process_with_grouping df category cfg = Inr res'
             \<and> reconciled category cfg (clean_rows df) (overall res')
             \<and> (\<exists>ws. weeks res' = Some ws
                \<and> distinct (map fst ws)
                \<and> set (map fst ws) = {w. w \<noteq> NaN \<and> (\<exists>r \<in> set (clean_rows df). r_week r = w)}
                \<and> (\<forall>(w, d) \<in> set ws.
                      reconciled category cfg (filter (\<lambda>r. r_week r = w) (clean_rows df)) d))"
      by (rule conjI[OF r reconciled_grouped[OF r]])
    note body = this
    show "\<exists>res'. process_with_grouping df category cfg = Inr res'
             \<and> reconciled category cfg (clean_rows df) (overall res')
             \<and> (\<exists>ws. weeks res' = Some ws
                \<and> distinct (map fst ws)
                \<and> set (map fst ws) = {w. w \<noteq> NaN \<and> (\<exists>r \<in> set (clean_rows df). r_week r = w)}
                \<and> (\<forall>(w, d) \<in> set ws.
                      reconciled category cfg (filter (\<lambda>r. r_week r = w) (clean_rows df)) d))"
      by (rule exI, rule body)
  qed
  show ?thesis by (rule conjI[OF A conjI[OF B conjI[OF C D]]])
qed


lemmas calc_defs = scope_results_def store_result_def calculate_earnings_def rate_of_def
  get_value_def zero_entry_def lower_def lower_char_def

lemma two_week_weekly:
  "weekly_totals (clean_rows two_week_frame)
     = [(Str ''Before Week 1'', ''ali'', 100), (Str ''Week 2'', ''Bob'', 50)]"
  by (simp add: two_week_frame_def weekly_totals_def first_amount_def)

lemma two_week_totals:
  "entity_totals (clean_rows two_week_frame) = [(''Bob'', 50), (''ali'', 100)]"
  by (simp add: two_week_frame_def entity_totals_def first_amount_def)

lemma two_week_processed:
  "process_with_grouping two_week_frame dispatcher_category ali_config = Inr two_week_results"
proof -
  have g: "amount_columns dispatcher_category \<noteq> []"
    "set (grouping_columns dispatcher_category) \<subseteq> set (clean_columns two_week_frame dispatcher_category)"
    "grouping_columns dispatcher_category = [''Week'']" "has_week two_week_frame"
    by (simp_all add: dispatcher_category_def two_week_frame_def clean_columns_def)
  have w1: "scope_results dispatcher_category ali_config [(''ali'', 100)]
      = [(''Ali'', \<lparr>entity_name = Some ''Ali'', total_amount = 100, percentage = Some 10,
                      flat_rate = None, earnings = 10\<rparr>)]"
    by (simp add: calc_defs dispatcher_category_def ali_config_def)
  have w2: "scope_results dispatcher_category ali_config [(''Bob'', 50)] = week2_results"
    by (simp add: calc_defs dispatcher_category_def ali_config_def week2_results_def)
  have o: "scope_results dispatcher_category ali_config [(''Bob'', 50), (''ali'', 100)]
      = overall two_week_results"
    by (simp add: calc_defs dispatcher_category_def ali_config_def two_week_results_def)
  show ?thesis
    using g by (simp add: process_with_grouping_def two_week_weekly two_week_totals unique_def
                  w1 w2 o two_week_results_def)
qed

lemma ungrouped_totals:
  "entity_totals (clean_rows ungrouped_frame) = [(''Bob'', 50), (''ali'', 100)]"
  by (simp add: ungrouped_frame_def entity_totals_def first_amount_def)

lemma ungrouped_processed:
  "process_without_grouping ungrouped_frame bot_category idle_config = Inr ungrouped_results"
proof -
  have g: "amount_columns bot_category \<noteq> []"
    by (simp add: bot_category_def)
  have o: "scope_results bot_category idle_config [(''Bob'', 50), (''ali'', 100)]
      = overall ungrouped_results"
    by (simp add: calc_defs bot_category_def idle_config_def ungrouped_results_def)
  show ?thesis
    using g by (simp add: process_without_grouping_def ungrouped_totals o ungrouped_results_def)
qed

theorem reconciliation_outer_join_witness:
  "amount_columns bot_category \<noteq> []
   \<and> process_without_grouping ungrouped_frame bot_category idle_config = Inr ungrouped_results
   \<and> weeks ungrouped_results = None
   \<and> map_of idle_config ''Cy'' = Some \<lparr>cfg_type = Some ''percentage'', cfg_value = Some 5\<rparr>
   \<and> map r_entity (clean_rows ungrouped_frame) = [''ali'', ''Bob'']
   \<and> fst ` set idle_config = {''Ali'', ''Cy''}
   \<and> map_of (overall ungrouped_results) ''Cy''
        = Some \<lparr>entity_name = None, total_amount = 0, percentage = Some 5, flat_rate = None,
                earnings = 0\<rparr>
   \<and> (\<exists>ed. map_of (overall ungrouped_results) ''Bob'' = Some ed \<and> total_amount ed = 50
          \<and> percentage ed = Some 0 \<and> earnings ed = 0)
   \<and> amount_columns dispatcher_category \<noteq> []
   \<and> grouping_columns dispatcher_category = [''Week'']
   \<and> has_week two_week_frame
   \<and> process_with_grouping two_week_frame dispatcher_category ali_config = Inr two_week_results
   \<and> (\<exists>ws. weeks two_week_results = Some ws \<and> distinct (map fst ws)
          \<and> set (map fst ws) = {Str ''Before Week 1'', Str ''Week 2''})
   \<and> map_of ali_config ''Ali'' = Some \<lparr>cfg_type = Some ''percentage'', cfg_value = Some 10\<rparr>
   \<and> map r_entity (filter (\<lambda>r. r_week r = Str ''Week 2'') (clean_rows two_week_frame)) = [''Bob'']
   \<and> lower ''Bob'' \<noteq> lower ''Ali''
   \<and> map_of week2_results ''Ali''
        = Some \<lparr>entity_name = None, total_amount = 0, percentage = Some 10, flat_rate = None,
                earnings = 0\<rparr>
   \<and> fst ` set ali_config = {''Ali''}
   \<and> (\<exists>ed. map_of week2_results ''Bob'' = Some ed \<and> total_amount ed = 50
          \<and> percentage ed = Some 0 \<and> earnings ed = 0)"
proof -
  let ?bob = "\<lparr>r_idx = 2, r_entity = ''Bob'', r_amounts = [Some 50], r_week = NaN\<rparr>"
  have rows: "clean_rows ungrouped_frame
      = [\<lparr>r_idx = 0, r_entity = ''ali'', r_amounts = [Some 100], r_week = NaN\<rparr>, ?bob]"
    by (simp add: ungrouped_frame_def)
  have u0: "amount_columns bot_category \<noteq> []" by (simp add: bot_category_def)
  have u1: "weeks ungrouped_results = None" by (simp add: ungrouped_results_def)
  have u2: "map_of idle_config ''Cy'' = Some \<lparr>cfg_type = Some ''percentage'', cfg_value = Some 5\<rparr>"
    by (simp add: idle_config_def)
  have u3: "map r_entity (clean_rows ungrouped_frame) = [''ali'', ''Bob'']"
    unfolding rows by simp
  have u4: "fst ` set idle_config = {''Ali'', ''Cy''}" by (simp add: idle_config_def)
  have um: "calculation_method bot_category = PERCENTAGE" by (simp add: bot_category_def)
  have uh1: "\<forall>r \<in> set (clean_rows ungrouped_frame). lower (r_entity r) \<noteq> lower ''Cy''"
    unfolding rows by (simp add: lower_def lower_char_def)
  have uh2: "\<forall>k \<in> fst ` set idle_config. lower k \<noteq> lower (r_entity ?bob)"
    by (simp add: idle_config_def lower_def lower_char_def)
  have ub: "?bob \<in> set (clean_rows ungrouped_frame)" unfolding rows by simp
  note ungrouped = mp[OF conjunct1[OF conjunct2[OF conjunct2[OF reconciliation_outer_join
                      [of ungrouped_frame bot_category idle_config ungrouped_results]]]] u0]
  from ungrouped obtain res' where
    ur: "process_without_grouping ungrouped_frame bot_category idle_config = Inr res'
      \<and> weeks res' = None
      \<and> reconciled bot_category idle_config (clean_rows ungrouped_frame) (overall res')" ..
  note r' = conjunct1[OF ur]
  note urec' = conjunct2[OF conjunct2[OF ur]]
  from r' have req: "res' = ungrouped_results" unfolding ungrouped_processed by simp
  note urec = urec'[unfolded req]
  from conjunct1[OF urec, rule_format, of "''Cy''" "\<lparr>cfg_type = Some ''percentage'', cfg_value = Some 5\<rparr>",
         OF conjI[OF u2 uh1]]
  have uz: "map_of (overall ungrouped_results) ''Cy''
        = Some \<lparr>entity_name = None, total_amount = 0, percentage = Some 5, flat_rate = None,
                earnings = 0\<rparr>"
    by (simp add: get_value_def)
  from mp[OF bspec[OF conjunct2[OF urec] ub] uh2] obtain ued where
    ued: "map_of (overall ungrouped_results) (r_entity ?bob) = Some ued"
      "total_amount ued = sum_list (map first_amount (filter (\<lambda>r'. r_entity r' = r_entity ?bob)
            (clean_rows ungrouped_frame)))"
      "calculation_method bot_category = PERCENTAGE
                    \<longrightarrow> percentage ued = Some 0 \<and> earnings ued = 0"
    by (elim exE conjE)
  from ued(1) have ue1: "map_of (overall ungrouped_results) ''Bob'' = Some ued" by simp
  from ued(2) have ue2: "total_amount ued = 50" unfolding rows by (simp add: first_amount_def)
  from ued(3) um have ue3: "percentage ued = Some 0 \<and> earnings ued = 0" by simp
  from ue1 ue2 ue3 have uu: "\<exists>ed. map_of (overall ungrouped_results) ''Bob'' = Some ed
          \<and> total_amount ed = 50 \<and> percentage ed = Some 0 \<and> earnings ed = 0"
    by blast
  let ?scope = "filter (\<lambda>r. r_week r = Str ''Week 2'') (clean_rows two_week_frame)"
  have scope: "?scope = [\<lparr>r_idx = 2, r_entity = ''Bob'', r_amounts = [Some 50], r_week = Str ''Week 2''\<rparr>]"
    by (simp add: two_week_frame_def)
  have g0: "amount_columns dispatcher_category \<noteq> []"
    and g1: "grouping_columns dispatcher_category = [''Week'']"
    and g2: "has_week two_week_frame"
    by (simp_all add: dispatcher_category_def two_week_frame_def)
  have h0: "map_of ali_config ''Ali'' = Some \<lparr>cfg_type = Some ''percentage'', cfg_value = Some 10\<rparr>"
    by (simp add: ali_config_def)
  have h1: "\<forall>r \<in> set ?scope. lower (r_entity r) \<noteq> lower ''Ali''"
    unfolding scope by (simp add: lower_def lower_char_def)
  have h2: "\<forall>k \<in> fst ` set ali_config. lower k \<noteq> lower ''Bob''"
    by (simp add: ali_config_def lower_def lower_char_def)
  have m: "calculation_method dispatcher_category = PERCENTAGE"
    by (simp add: dispatcher_category_def)
  have in_ws: "(Str ''Week 2'', week2_results) \<in> set [(Str ''Before Week 1'',
          [(''Ali'', \<lparr>entity_name = Some ''Ali'', total_amount = 100, percentage = Some 10,
                      flat_rate = None, earnings = 10\<rparr>)]),
         (Str ''Week 2'', week2_results)]" by simp
  have listed: "{w. w \<noteq> NaN \<and> (\<exists>r \<in> set (clean_rows two_week_frame). r_week r = w)}
      = {Str ''Before Week 1'', Str ''Week 2''}"
    by (auto simp: two_week_frame_def)
  note grouped = mp[OF conjunct2[OF conjunct2[OF conjunct2[OF reconciliation_outer_join
                      [of two_week_frame dispatcher_category ali_config two_week_results]]]]
                    conjI[OF g0 conjI[OF g1 g2]]]
  from grouped obtain res'' where
    gr: "process_with_grouping two_week_frame dispatcher_category ali_config = Inr res''
      \<and> reconciled dispatcher_category ali_config (clean_rows two_week_frame) (overall res'')
      \<and> (\<exists>ws. weeks res'' = Some ws
      \<and> distinct (map fst ws)
      \<and> set (map fst ws) = {w. w \<noteq> NaN \<and> (\<exists>r \<in> set (clean_rows two_week_frame). r_week r = w)}
      \<and> (\<forall>(w, d) \<in> set ws. reconciled dispatcher_category ali_config
                 (filter (\<lambda>r. r_week r = w) (clean_rows two_week_frame)) d))" ..
  note r'' = conjunct1[OF gr]
  note wex' = conjunct2[OF conjunct2[OF gr]]
  from r'' have geq: "res'' = two_week_results" unfolding two_week_processed by simp
  from wex'[unfolded geq] obtain ws where
    wsP: "weeks two_week_results = Some ws
      \<and> distinct (map fst ws)
      \<and> set (map fst ws) = {w. w \<noteq> NaN \<and> (\<exists>r \<in> set (clean_rows two_week_frame). r_week r = w)}
      \<and> (\<forall>(w, d) \<in> set ws. reconciled dispatcher_category ali_config
                 (filter (\<lambda>r. r_week r = w) (clean_rows two_week_frame)) d)" ..
  note ws1 = conjunct1[OF wsP]
  note ws2 = conjunct1[OF conjunct2[OF wsP]]
  note ws3 = conjunct1[OF conjunct2[OF conjunct2[OF wsP]]]
  note ws4 = conjunct2[OF conjunct2[OF conjunct2[OF wsP]]]
  from ws3 have ws3': "set (map fst ws) = {Str ''Before Week 1'', Str ''Week 2''}"
    unfolding listed .
  have "weeks two_week_results = Some ws \<and> distinct (map fst ws)
          \<and> set (map fst ws) = {Str ''Before Week 1'', Str ''Week 2''}"
    by (rule conjI[OF ws1 conjI[OF ws2 ws3']])
  note listing = this
  have wl: "\<exists>ws. weeks two_week_results = Some ws \<and> distinct (map fst ws)
          \<and> set (map fst ws) = {Str ''Before Week 1'', Str ''Week 2''}"
    by (rule exI, rule listing)
  from ws1 in_ws have mem: "(Str ''Week 2'', week2_results) \<in> set ws"
    by (simp add: two_week_results_def)
  from bspec[OF ws4 mem]
  have rec: "reconciled dispatcher_category ali_config ?scope week2_results"
    unfolding prod.case .
  from conjunct1[OF rec, rule_format, of "''Ali''" "\<lparr>cfg_type = Some ''percentage'', cfg_value = Some 10\<rparr>",
         OF conjI[OF h0 h1]]
  have z: "map_of week2_results ''Ali''
        = Some \<lparr>entity_name = None, total_amount = 0, percentage = Some 10, flat_rate = None,
                earnings = 0\<rparr>"
    by (simp add: get_value_def)
  have b: "\<lparr>r_idx = 2, r_entity = ''Bob'', r_amounts = [Some 50], r_week = Str ''Week 2''\<rparr> \<in> set ?scope"
    unfolding scope by simp
  have h2': "\<forall>k \<in> fst ` set ali_config. lower k \<noteq> lower (r_entity
        \<lparr>r_idx = 2, r_entity = ''Bob'', r_amounts = [Some 50], r_week = Str ''Week 2''\<rparr>)"
    using h2 by simp
  from mp[OF bspec[OF conjunct2[OF rec] b] h2'] obtain ed where
    ed: "map_of week2_results (r_entity
            \<lparr>r_idx = 2, r_entity = ''Bob'', r_amounts = [Some 50], r_week = Str ''Week 2''\<rparr>) = Some ed"
      "total_amount ed = sum_list (map first_amount (filter (\<lambda>r'. r_entity r' = r_entity
            \<lparr>r_idx = 2, r_entity = ''Bob'', r_amounts = [Some 50], r_week = Str ''Week 2''\<rparr>) ?scope))"
      "calculation_method dispatcher_category = PERCENTAGE
                    \<longrightarrow> percentage ed = Some 0 \<and> earnings ed = 0"
    by (elim exE conjE)
  from ed(1) have e1: "map_of week2_results ''Bob'' = Some ed" by simp
  from ed(2) have e2: "total_amount ed = 50" unfolding scope by (simp add: first_amount_def)
  from ed(3) m have e3: "percentage ed = Some 0 \<and> earnings ed = 0" by simp
  from e1 e2 e3 have u: "\<exists>ed. map_of week2_results ''Bob'' = Some ed \<and> total_amount ed = 50
          \<and> percentage ed = Some 0 \<and> earnings ed = 0"
    by blast
  have h3: "map r_entity ?scope = [''Bob'']" unfolding scope by simp
  have h4: "lower ''Bob'' \<noteq> lower ''Ali''" by (simp add: lower_def lower_char_def)
  have h5: "fst ` set ali_config = {''Ali''}" by (simp add: ali_config_def)
  from u0 ungrouped_processed u1 u2 u3 u4 uz uu g0 g1 g2 two_week_processed wl h0 h3 h4 z h5 u
  show ?thesis by (intro conjI)
qed


section \<open>Processing a category\<close>

lemma strip_labels [simp]:
  "strip ''Broker'' = ''Broker''" "strip ''Dispatch'' = ''Dispatch''" "strip ''Amount'' = ''Amount''"
  "strip ''Broker '' = ''Broker''" "strip '' Dispatch'' = ''Dispatch''"
  by (simp_all add: strip_def is_space_def)

lemma broker_label [simp]:
  "contains ''broker'' (lower ''Broker'')" "\<not> contains ''broker'' (lower ''Dispatch'')"
  "\<not> contains ''broker'' (lower ''Amount'')"
  by (simp_all add: lower_def lower_char_def)

lemma role_labels [simp]:
  "\<not> contains ''dispatch'' (lower ''Broker'')" "contains ''dispatch'' (lower ''Dispatch'')"
  "\<not> contains ''dispatch'' (lower ''Amount'')"
  "\<not> contains ''amount'' (lower ''Broker'')" "\<not> contains ''amount'' (lower ''Dispatch'')"
  "contains ''amount'' (lower ''Amount'')"
  "\<not> contains ''total'' (lower ''Broker'')" "\<not> contains ''total'' (lower ''Dispatch'')"
  "\<not> contains ''revenue'' (lower ''Broker'')" "\<not> contains ''revenue'' (lower ''Dispatch'')"
  by (simp_all add: lower_def lower_char_def)

text \<open>The caller's table after \<^verbatim>\<open>process_category\<close>.\<close>

lemma process_category_store:
  assumes "df < next_ref s"
  shows "frames (fst (process_category s df category cfg)) df
           = (frames s df)\<lparr>columns := map strip (columns (frames s df))\<rparr>
     \<and> (\<forall>r. r < next_ref s \<and> r \<noteq> df \<longrightarrow> frames (fst (process_category s df category cfg)) r = frames s r)"
  using assms
  by (auto simp: process_category_def Let_def split: option.splits sum.splits)

text \<open>
  Claim C9, as the code has it. For a table that the caller holds, \<^verbatim>\<open>process_category\<close>
  replaces the column labels of that table, in place, by the labels with surrounding
  whitespace removed, and changes nothing else of it: the rows and their cells stay, no
  column is added, and every other table of the caller stays as it was. The period
  column is written to a copy that only the processor sees. This holds also when
  processing ends in an exception.
\<close>

theorem process_category_caller_table:
  assumes "df < next_ref s"
  shows "frames (fst (process_category s df category cfg)) df
           = (frames s df)\<lparr>columns := map strip (columns (frames s df))\<rparr>
     \<and> rows (frames (fst (process_category s df category cfg)) df) = rows (frames s df)
     \<and> length (columns (frames (fst (process_category s df category cfg)) df))
          = length (columns (frames s df))
     \<and> (\<forall>r. r < next_ref s \<and> r \<noteq> df
            \<longrightarrow> frames (fst (process_category s df category cfg)) r = frames s r)"
  using process_category_store[OF assms, of category cfg] by simp

theorem process_category_caller_table_witness:
  "(0::nat) < next_ref (caller_store padded_table)
   \<and> frames (fst (process_category (caller_store padded_table) 0 dispatcher_category ali_config)) 0
       = \<lparr>columns = [''Broker'', ''Dispatch'', ''Amount''],
          rows = [[Str '''', Str ''Ali'', Str ''$500'']]\<rparr>"
proof -
  have h: "(0::nat) < next_ref (caller_store padded_table)" by (simp add: caller_store_def)
  from process_category_caller_table[OF h, of dispatcher_category ali_config]
  have "frames (fst (process_category (caller_store padded_table) 0 dispatcher_category ali_config)) 0
          = (frames (caller_store padded_table) 0)
              \<lparr>columns := map strip (columns (frames (caller_store padded_table) 0))\<rparr>"
    by (rule conjunct1)
  then show ?thesis using h by (simp add: caller_store_def padded_table_def)
qed

text \<open>
  Claim C9 as stated fails: after processing a table whose labels carry blanks, the
  caller's table is neither the table it was nor that table with a \<^verbatim>\<open>Week\<close> column
  added; its labels have changed and it has no \<^verbatim>\<open>Week\<close> column.
\<close>

theorem process_category_mutates_labels:
  "frames (fst (process_category (caller_store padded_table) 0 dispatcher_category ali_config)) 0
     \<noteq> padded_table
   \<and> columns (frames (fst (process_category (caller_store padded_table) 0 dispatcher_category
                              ali_config)) 0)
     \<noteq> columns padded_table @ [''Week'']
   \<and> ''Week'' \<notin> set (columns (frames (fst (process_category (caller_store padded_table) 0
                                            dispatcher_category ali_config)) 0))"
proof -
  have h: "(0::nat) < next_ref (caller_store padded_table)" by (simp add: caller_store_def)
  have "frames (fst (process_category (caller_store padded_table) 0 dispatcher_category ali_config)) 0
          = \<lparr>columns = [''Broker'', ''Dispatch'', ''Amount''],
             rows = [[Str '''', Str ''Ali'', Str ''$500'']]\<rparr>"
    using process_category_store[OF h, of dispatcher_category ali_config]
    by (simp add: caller_store_def padded_table_def)
  then show ?thesis by (simp add: padded_table_def)
qed


section \<open>The end-to-end scenario\<close>

lemma dispatcher_fields:
  "entity_column dispatcher_category = ''Dispatch''"
  "amount_columns dispatcher_category = [''Amount'']"
  "grouping_columns dispatcher_category = [''Week'']"
  "calculation_method dispatcher_category = PERCENTAGE"
  by (simp_all add: dispatcher_category_def)

lemma scenario_stripped: "scenario_table\<lparr>columns := map strip (columns scenario_table)\<rparr> = scenario_table"
  by (simp add: scenario_table_def)

lemma scenario_broker:
  "find (\<lambda>col. contains ''broker'' (lower col)) (columns scenario_table) = Some ''Broker''"
  by (simp add: scenario_table_def)

lemma scenario_roles:
  "last_match (\<lambda>col. contains ''dispatch'' (lower col)) (columns scenario_table) = Some ''Dispatch''"
  "last_match (\<lambda>col. contains ''amount'' (lower col) \<or> contains ''total'' (lower col)
                      \<or> contains ''revenue'' (lower col)) (columns scenario_table) = Some ''Amount''"
  "last_match (\<lambda>col. contains ''broker'' (lower col)) (columns scenario_table) = Some ''Broker''"
  by (simp_all add: scenario_table_def last_match_def)

lemma scenario_labels: "detect_week_markers scenario_table ''Broker'' = Inr [''Before Week 1'', ''Week 2'', ''Week 2'', ''Week 2'']"
  by (simp add: scenario_table_def week_defs text_defs)

lemma scenario_week_column: "''Week'' \<in> set (columns (set_column scenario_table ''Week'' vals))"
  by (simp add: scenario_table_def set_column_def)

lemma scenario_cleaned:
  "clean_dataframe (set_column scenario_table ''Week'' [Str ''Before Week 1'', Str ''Week 2'', Str ''Week 2'', Str ''Week 2'']) ''Dispatch'' [''Amount'']
     = Inr [\<lparr>r_idx = 0, r_entity = ''Ali'', r_amounts = [Some 500], r_week = NaN\<rparr>,
            \<lparr>r_idx = 2, r_entity = ''Ali'', r_amounts = [Some 300], r_week = NaN\<rparr>]"
  by (simp add: scenario_table_def set_column_def clean_dataframe_def get_cell_def positive_def text_defs)

lemma scenario_attached:
  "attach_week (set_column scenario_table ''Week'' [Str ''Before Week 1'', Str ''Week 2'', Str ''Week 2'', Str ''Week 2''])
        [\<lparr>r_idx = 0, r_entity = ''Ali'', r_amounts = [Some 500], r_week = NaN\<rparr>,
            \<lparr>r_idx = 2, r_entity = ''Ali'', r_amounts = [Some 300], r_week = NaN\<rparr>]
     = Inr [\<lparr>r_idx = 0, r_entity = ''Ali'', r_amounts = [Some 500], r_week = Str ''Before Week 1''\<rparr>,
            \<lparr>r_idx = 2, r_entity = ''Ali'', r_amounts = [Some 300], r_week = Str ''Week 2''\<rparr>]"
  by (simp add: scenario_table_def set_column_def get_cell_def)

lemma scenario_selected:
  "select_rows (columns (set_column scenario_table ''Week'' [Str ''Before Week 1'', Str ''Week 2'', Str ''Week 2'', Str ''Week 2'']))
     [''Broker'', ''Dispatch'', ''Amount'', ''Week''] 0
     (rows (set_column scenario_table ''Week'' [Str ''Before Week 1'', Str ''Week 2'', Str ''Week 2'', Str ''Week 2'']))
   = Inr [(0, [Str '''', Str ''Ali'', Str ''$500'', Str ''Before Week 1'']),
            (Suc 0, [Str ''Week 2'', Str '''', Str '''', Str ''Week 2'']),
            (2, [Str '''', Str ''Ali'', Str ''300'', Str ''Week 2'']),
            (3, [Str '''', Str ''Sara'', Str ''$-10'', Str ''Week 2''])]"
  by (simp add: scenario_table_def set_column_def get_cell_def)

lemma scenario_legacy_clean:
  "legacy_clean [(0, [Str '''', Str ''Ali'', Str ''$500'', Str ''Before Week 1'']),
            (Suc 0, [Str ''Week 2'', Str '''', Str '''', Str ''Week 2'']),
            (2, [Str '''', Str ''Ali'', Str ''300'', Str ''Week 2'']),
            (3, [Str '''', Str ''Sara'', Str ''$-10'', Str ''Week 2''])]
     = [\<lparr>r_idx = 0, r_entity = ''Ali'', r_amounts = [Some 500], r_week = Str ''Before Week 1''\<rparr>,
            \<lparr>r_idx = 2, r_entity = ''Ali'', r_amounts = [Some 300], r_week = Str ''Week 2''\<rparr>]"
  by (simp add: legacy_clean_def positive_def text_defs)

lemma scenario_universal:
  "snd (snd (process_category (caller_store scenario_table) 0 dispatcher_category ali_config))
     = process_with_grouping \<lparr>has_week = True, clean_rows = [\<lparr>r_idx = 0, r_entity = ''Ali'', r_amounts = [Some 500], r_week = Str ''Before Week 1''\<rparr>,
            \<lparr>r_idx = 2, r_entity = ''Ali'', r_amounts = [Some 300], r_week = Str ''Week 2''\<rparr>]\<rparr>
         dispatcher_category ali_config"
  by (simp add: process_category_def caller_store_def Let_def scenario_stripped scenario_broker
        scenario_labels dispatcher_fields process_cleaned_def scenario_cleaned scenario_attached scenario_week_column
        del: attach_week.simps)

lemma scenario_legacy:
  "process_excel_file scenario_table percentages
     = Inr (legacy_results [\<lparr>r_idx = 0, r_entity = ''Ali'', r_amounts = [Some 500], r_week = Str ''Before Week 1''\<rparr>,
            \<lparr>r_idx = 2, r_entity = ''Ali'', r_amounts = [Some 300], r_week = Str ''Week 2''\<rparr>] percentages)"
  by (simp add: process_excel_file_def Let_def scenario_stripped scenario_roles scenario_labels scenario_selected
        scenario_legacy_clean del: select_rows.simps)

lemma sheet_stripped: "scenario_sheet\<lparr>columns := map strip (columns scenario_sheet)\<rparr> = scenario_sheet"
  by (simp add: scenario_sheet_def)

lemma sheet_broker:
  "find (\<lambda>col. contains ''broker'' (lower col)) (columns scenario_sheet) = Some ''Broker''"
  by (simp add: scenario_sheet_def)

lemma sheet_roles:
  "last_match (\<lambda>col. contains ''dispatch'' (lower col)) (columns scenario_sheet) = Some ''Dispatch''"
  "last_match (\<lambda>col. contains ''amount'' (lower col) \<or> contains ''total'' (lower col)
                      \<or> contains ''revenue'' (lower col)) (columns scenario_sheet) = Some ''Amount''"
  "last_match (\<lambda>col. contains ''broker'' (lower col)) (columns scenario_sheet) = Some ''Broker''"
  by (simp_all add: scenario_sheet_def last_match_def)

lemma sheet_labels: "detect_week_markers scenario_sheet ''Broker'' = Inr [''Before Week 1'', ''Week 2'', ''Week 2'', ''Week 2'']"
  by (simp add: scenario_sheet_def week_defs text_defs)

lemma sheet_week_column: "''Week'' \<in> set (columns (set_column scenario_sheet ''Week'' vals))"
  by (simp add: scenario_sheet_def set_column_def)

lemma sheet_cleaned:
  "clean_dataframe (set_column scenario_sheet ''Week'' [Str ''Before Week 1'', Str ''Week 2'', Str ''Week 2'', Str ''Week 2'']) ''Dispatch'' [''Amount'']
     = Inr [\<lparr>r_idx = 0, r_entity = ''Ali'', r_amounts = [Some 500], r_week = NaN\<rparr>,
            \<lparr>r_idx = 2, r_entity = ''Ali'', r_amounts = [Some 300], r_week = NaN\<rparr>]"
  by (simp add: scenario_sheet_def set_column_def clean_dataframe_def get_cell_def positive_def text_defs)

lemma sheet_attached:
  "attach_week (set_column scenario_sheet ''Week'' [Str ''Before Week 1'', Str ''Week 2'', Str ''Week 2'', Str ''Week 2''])
        [\<lparr>r_idx = 0, r_entity = ''Ali'', r_amounts = [Some 500], r_week = NaN\<rparr>,
            \<lparr>r_idx = 2, r_entity = ''Ali'', r_amounts = [Some 300], r_week = NaN\<rparr>]
     = Inr [\<lparr>r_idx = 0, r_entity = ''Ali'', r_amounts = [Some 500], r_week = Str ''Before Week 1''\<rparr>,
            \<lparr>r_idx = 2, r_entity = ''Ali'', r_amounts = [Some 300], r_week = Str ''Week 2''\<rparr>]"
  by (simp add: scenario_sheet_def set_column_def get_cell_def)

lemma sheet_selected:
  "select_rows (columns (set_column scenario_sheet ''Week'' [Str ''Before Week 1'', Str ''Week 2'', Str ''Week 2'', Str ''Week 2'']))
     [''Broker'', ''Dispatch'', ''Amount'', ''Week''] 0
     (rows (set_column scenario_sheet ''Week'' [Str ''Before Week 1'', Str ''Week 2'', Str ''Week 2'', Str ''Week 2'']))
   = Inr [(0, [NaN, Str ''Ali'', Str ''$500'', Str ''Before Week 1'']),
            (Suc 0, [Str ''Week 2'', NaN, NaN, Str ''Week 2'']),
            (2, [NaN, Str ''Ali'', Str ''300'', Str ''Week 2'']),
            (3, [NaN, Str ''Sara'', Str ''$-10'', Str ''Week 2''])]"
  by (simp add: scenario_sheet_def set_column_def get_cell_def)

lemma sheet_legacy_clean:
  "legacy_clean [(0, [NaN, Str ''Ali'', Str ''$500'', Str ''Before Week 1'']),
            (Suc 0, [Str ''Week 2'', NaN, NaN, Str ''Week 2'']),
            (2, [NaN, Str ''Ali'', Str ''300'', Str ''Week 2'']),
            (3, [NaN, Str ''Sara'', Str ''$-10'', Str ''Week 2''])]
     = [\<lparr>r_idx = 0, r_entity = ''Ali'', r_amounts = [Some 500], r_week = Str ''Before Week 1''\<rparr>,
            \<lparr>r_idx = 2, r_entity = ''Ali'', r_amounts = [Some 300], r_week = Str ''Week 2''\<rparr>]"
  by (simp add: legacy_clean_def positive_def text_defs)

lemma sheet_universal:
  "snd (snd (process_category (caller_store scenario_sheet) 0 dispatcher_category ali_config))
     = process_with_grouping \<lparr>has_week = True, clean_rows = [\<lparr>r_idx = 0, r_entity = ''Ali'', r_amounts = [Some 500], r_week = Str ''Before Week 1''\<rparr>,
            \<lparr>r_idx = 2, r_entity = ''Ali'', r_amounts = [Some 300], r_week = Str ''Week 2''\<rparr>]\<rparr>
         dispatcher_category ali_config"
  by (simp add: process_category_def caller_store_def Let_def sheet_stripped sheet_broker
        sheet_labels dispatcher_fields process_cleaned_def sheet_cleaned sheet_attached sheet_week_column
        del: attach_week.simps)

lemma sheet_legacy:
  "process_excel_file scenario_sheet percentages
     = Inr (legacy_results [\<lparr>r_idx = 0, r_entity = ''Ali'', r_amounts = [Some 500], r_week = Str ''Before Week 1''\<rparr>,
            \<lparr>r_idx = 2, r_entity = ''Ali'', r_amounts = [Some 300], r_week = Str ''Week 2''\<rparr>] percentages)"
  by (simp add: process_excel_file_def Let_def sheet_stripped sheet_roles sheet_labels sheet_selected
        sheet_legacy_clean del: select_rows.simps)

lemma spellings_stripped: "two_spellings_table\<lparr>columns := map strip (columns two_spellings_table)\<rparr> = two_spellings_table"
  by (simp add: two_spellings_table_def)

lemma spellings_broker:
  "find (\<lambda>col. contains ''broker'' (lower col)) (columns two_spellings_table) = Some ''Broker''"
  by (simp add: two_spellings_table_def)

lemma spellings_roles:
  "last_match (\<lambda>col. contains ''dispatch'' (lower col)) (columns two_spellings_table) = Some ''Dispatch''"
  "last_match (\<lambda>col. contains ''amount'' (lower col) \<or> contains ''total'' (lower col)
                      \<or> contains ''revenue'' (lower col)) (columns two_spellings_table) = Some ''Amount''"
  "last_match (\<lambda>col. contains ''broker'' (lower col)) (columns two_spellings_table) = Some ''Broker''"
  by (simp_all add: two_spellings_table_def last_match_def)

lemma spellings_labels: "detect_week_markers two_spellings_table ''Broker'' = Inr [''Before Week 1'', ''Week 2'']"
  by (simp add: two_spellings_table_def week_defs text_defs)

lemma spellings_week_column: "''Week'' \<in> set (columns (set_column two_spellings_table ''Week'' vals))"
  by (simp add: two_spellings_table_def set_column_def)

lemma spellings_cleaned:
  "clean_dataframe (set_column two_spellings_table ''Week'' [Str ''Before Week 1'', Str ''Week 2'']) ''Dispatch'' [''Amount'']
     = Inr [\<lparr>r_idx = 0, r_entity = ''ALI'', r_amounts = [Some 100], r_week = NaN\<rparr>,
            \<lparr>r_idx = Suc 0, r_entity = ''ali'', r_amounts = [Some 200], r_week = NaN\<rparr>]"
  by (simp add: two_spellings_table_def set_column_def clean_dataframe_def get_cell_def positive_def text_defs)

lemma spellings_attached:
  "attach_week (set_column two_spellings_table ''Week'' [Str ''Before Week 1'', Str ''Week 2''])
        [\<lparr>r_idx = 0, r_entity = ''ALI'', r_amounts = [Some 100], r_week = NaN\<rparr>,
            \<lparr>r_idx = Suc 0, r_entity = ''ali'', r_amounts = [Some 200], r_week = NaN\<rparr>]
     = Inr [\<lparr>r_idx = 0, r_entity = ''ALI'', r_amounts = [Some 100], r_week = Str ''Before Week 1''\<rparr>,
            \<lparr>r_idx = Suc 0, r_entity = ''ali'', r_amounts = [Some 200], r_week = Str ''Week 2''\<rparr>]"
  by (simp add: two_spellings_table_def set_column_def get_cell_def)

lemma spellings_selected:
  "select_rows (columns (set_column two_spellings_table ''Week'' [Str ''Before Week 1'', Str ''Week 2'']))
     [''Broker'', ''Dispatch'', ''Amount'', ''Week''] 0
     (rows (set_column two_spellings_table ''Week'' [Str ''Before Week 1'', Str ''Week 2'']))
   = Inr [(0, [Str '''', Str ''ALI'', Str ''100'', Str ''Before Week 1'']),
            (Suc 0, [Str ''Week 2'', Str ''ali'', Str ''200'', Str ''Week 2''])]"
  by (simp add: two_spellings_table_def set_column_def get_cell_def)

lemma spellings_legacy_clean:
  "legacy_clean [(0, [Str '''', Str ''ALI'', Str ''100'', Str ''Before Week 1'']),
            (Suc 0, [Str ''Week 2'', Str ''ali'', Str ''200'', Str ''Week 2''])]
     = [\<lparr>r_idx = 0, r_entity = ''ALI'', r_amounts = [Some 100], r_week = Str ''Before Week 1''\<rparr>,
            \<lparr>r_idx = Suc 0, r_entity = ''ali'', r_amounts = [Some 200], r_week = Str ''Week 2''\<rparr>]"
  by (simp add: legacy_clean_def positive_def text_defs)

lemma spellings_universal:
  "snd (snd (process_category (caller_store two_spellings_table) 0 dispatcher_category ali_config))
     = process_with_grouping \<lparr>has_week = True, clean_rows = [\<lparr>r_idx = 0, r_entity = ''ALI'', r_amounts = [Some 100], r_week = Str ''Before Week 1''\<rparr>,
            \<lparr>r_idx = Suc 0, r_entity = ''ali'', r_amounts = [Some 200], r_week = Str ''Week 2''\<rparr>]\<rparr>
         dispatcher_category ali_config"
  by (simp add: process_category_def caller_store_def Let_def spellings_stripped spellings_broker
        spellings_labels dispatcher_fields process_cleaned_def spellings_cleaned spellings_attached spellings_week_column
        del: attach_week.simps)

lemma spellings_legacy:
  "process_excel_file two_spellings_table percentages
     = Inr (legacy_results [\<lparr>r_idx = 0, r_entity = ''ALI'', r_amounts = [Some 100], r_week = Str ''Before Week 1''\<rparr>,
            \<lparr>r_idx = Suc 0, r_entity = ''ali'', r_amounts = [Some 200], r_week = Str ''Week 2''\<rparr>] percentages)"
  by (simp add: process_excel_file_def Let_def spellings_stripped spellings_roles spellings_labels spellings_selected
        spellings_legacy_clean del: select_rows.simps)

lemma percentage_scope:
  "scope_results dispatcher_category ali_config [(''Ali'', t)]
      = [(''Ali'', week_entry (Some ''Ali'') t 10 (t * 10 / 100))]"
  by (simp add: calc_defs dispatcher_fields ali_config_def week_entry_def)

lemma legacy_percentage_scope:
  "legacy_scope [(''Ali'', 10)] [(''Ali'', t)] = [(''Ali'', week_entry None t 10 (t * 10 / 100))]"
  by (simp add: legacy_scope_def legacy_entry_def week_entry_def lower_def lower_char_def)

lemma scenario_weekly:
  "weekly_totals [\<lparr>r_idx = 0, r_entity = ''Ali'', r_amounts = [Some 500], r_week = Str ''Before Week 1''\<rparr>,
                  \<lparr>r_idx = 2, r_entity = ''Ali'', r_amounts = [Some 300], r_week = Str ''Week 2''\<rparr>]
      = [(Str ''Before Week 1'', ''Ali'', 500), (Str ''Week 2'', ''Ali'', 300)]"
  by (simp add: weekly_totals_def first_amount_def)

lemma scenario_totals:
  "entity_totals [\<lparr>r_idx = 0, r_entity = ''Ali'', r_amounts = [Some 500], r_week = Str ''Before Week 1''\<rparr>,
                  \<lparr>r_idx = 2, r_entity = ''Ali'', r_amounts = [Some 300], r_week = Str ''Week 2''\<rparr>]
      = [(''Ali'', 800)]"
  by (simp add: entity_totals_def first_amount_def)

lemma scenario_grouped:
  "process_with_grouping
     \<lparr>has_week = True,
      clean_rows = [\<lparr>r_idx = 0, r_entity = ''Ali'', r_amounts = [Some 500], r_week = Str ''Before Week 1''\<rparr>,
                    \<lparr>r_idx = 2, r_entity = ''Ali'', r_amounts = [Some 300], r_week = Str ''Week 2''\<rparr>]\<rparr>
     dispatcher_category ali_config
   = Inr (scenario_results (Some ''Ali''))"
  by (simp add: process_with_grouping_def scenario_weekly scenario_totals percentage_scope
        unique_def scenario_results_def dispatcher_fields clean_columns_def)

lemma scenario_legacy_results:
  "legacy_results
     [\<lparr>r_idx = 0, r_entity = ''Ali'', r_amounts = [Some 500], r_week = Str ''Before Week 1''\<rparr>,
      \<lparr>r_idx = 2, r_entity = ''Ali'', r_amounts = [Some 300], r_week = Str ''Week 2''\<rparr>]
     [(''Ali'', 10)]
   = scenario_results None"
  by (simp add: legacy_results_def scenario_weekly scenario_totals legacy_percentage_scope
        unique_def scenario_results_def)

text \<open>
  Claim C1. On the four-row table of the specification, with Ali configured at 10 per
  cent, both processors give the period \<^verbatim>\<open>Before Week 1\<close> with Ali at total 500 and
  earnings 50, the period \<^verbatim>\<open>Week 2\<close> with Ali at total 300 and earnings 30, and overall
  Ali at total 800 and earnings 80, and nothing else: Sara's row with the negative
  amount and the row without a dispatcher are in no period. This holds for the table
  with empty texts and for the table with missing cells, for \<^verbatim>\<open>process_excel_file\<close> and
  for \<^verbatim>\<open>process_category\<close> with the dispatcher category grouped by \<^verbatim>\<open>Week\<close>.
\<close>

theorem end_to_end_scenario:
  "process_excel_file scenario_table [(''Ali'', 10)] = Inr (scenario_results None)
   \<and> process_excel_file scenario_sheet [(''Ali'', 10)] = Inr (scenario_results None)
   \<and> snd (snd (process_category (caller_store scenario_table) 0 dispatcher_category ali_config))
       = Inr (scenario_results (Some ''Ali''))
   \<and> snd (snd (process_category (caller_store scenario_sheet) 0 dispatcher_category ali_config))
       = Inr (scenario_results (Some ''Ali''))
   \<and> scenario_results n =
       \<lparr>weeks = Some
          [(Str ''Before Week 1'',
            [(''Ali'', \<lparr>entity_name = n, total_amount = 500, percentage = Some 10,
                        flat_rate = None, earnings = 50\<rparr>)]),
           (Str ''Week 2'',
            [(''Ali'', \<lparr>entity_name = n, total_amount = 300, percentage = Some 10,
                        flat_rate = None, earnings = 30\<rparr>)])],
        overall =
          [(''Ali'', \<lparr>entity_name = n, total_amount = 800, percentage = Some 10,
                      flat_rate = None, earnings = 80\<rparr>)]\<rparr>"
proof -
  have "scenario_results n =
       \<lparr>weeks = Some
          [(Str ''Before Week 1'',
            [(''Ali'', \<lparr>entity_name = n, total_amount = 500, percentage = Some 10,
                        flat_rate = None, earnings = 50\<rparr>)]),
           (Str ''Week 2'',
            [(''Ali'', \<lparr>entity_name = n, total_amount = 300, percentage = Some 10,
                        flat_rate = None, earnings = 30\<rparr>)])],
        overall =
          [(''Ali'', \<lparr>entity_name = n, total_amount = 800, percentage = Some 10,
                      flat_rate = None, earnings = 80\<rparr>)]\<rparr>"
    by (simp add: scenario_results_def week_entry_def)
  then show ?thesis
    by (simp only: scenario_legacy sheet_legacy scenario_legacy_results scenario_universal
          sheet_universal scenario_grouped simp_thms)
qed

section \<open>The sum over the weeks\<close>

lemma spellings_weekly:
  "weekly_totals [\<lparr>r_idx = 0, r_entity = ''ALI'', r_amounts = [Some 100], r_week = Str ''Before Week 1''\<rparr>,
                  \<lparr>r_idx = Suc 0, r_entity = ''ali'', r_amounts = [Some 200], r_week = Str ''Week 2''\<rparr>]
      = [(Str ''Before Week 1'', ''ALI'', 100), (Str ''Week 2'', ''ali'', 200)]"
  by (simp add: weekly_totals_def first_amount_def)

lemma spellings_totals:
  "entity_totals [\<lparr>r_idx = 0, r_entity = ''ALI'', r_amounts = [Some 100], r_week = Str ''Before Week 1''\<rparr>,
                  \<lparr>r_idx = Suc 0, r_entity = ''ali'', r_amounts = [Some 200], r_week = Str ''Week 2''\<rparr>]
      = [(''ALI'', 100), (''ali'', 200)]"
  by (simp add: entity_totals_def first_amount_def)

lemma spellings_scopes:
  "scope_results dispatcher_category ali_config [(''ALI'', 100)]
     = [(''Ali'', week_entry (Some ''Ali'') 100 10 10)]"
  "scope_results dispatcher_category ali_config [(''ali'', 200)]
     = [(''Ali'', week_entry (Some ''Ali'') 200 10 20)]"
  "scope_results dispatcher_category ali_config [(''ALI'', 100), (''ali'', 200)]
     = [(''Ali'', week_entry (Some ''Ali'') 200 10 20)]"
  by (simp_all add: calc_defs dispatcher_fields ali_config_def week_entry_def)

lemma spellings_legacy_scopes:
  "legacy_scope [(''Ali'', 10)] [(''ALI'', 100)] = [(''Ali'', week_entry None 100 10 10)]"
  "legacy_scope [(''Ali'', 10)] [(''ali'', 200)] = [(''Ali'', week_entry None 200 10 20)]"
  "legacy_scope [(''Ali'', 10)] [(''ALI'', 100), (''ali'', 200)] = [(''Ali'', week_entry None 200 10 20)]"
  by (simp_all add: legacy_scope_def legacy_entry_def week_entry_def lower_def lower_char_def)

lemma spellings_grouped:
  "process_with_grouping
     \<lparr>has_week = True,
      clean_rows = [\<lparr>r_idx = 0, r_entity = ''ALI'', r_amounts = [Some 100], r_week = Str ''Before Week 1''\<rparr>,
                    \<lparr>r_idx = Suc 0, r_entity = ''ali'', r_amounts = [Some 200], r_week = Str ''Week 2''\<rparr>]\<rparr>
     dispatcher_category ali_config
   = Inr (two_spellings_results (Some ''Ali''))"
  by (simp add: process_with_grouping_def spellings_weekly spellings_totals spellings_scopes
        unique_def two_spellings_results_def dispatcher_fields clean_columns_def)

lemma spellings_legacy_results:
  "legacy_results
     [\<lparr>r_idx = 0, r_entity = ''ALI'', r_amounts = [Some 100], r_week = Str ''Before Week 1''\<rparr>,
      \<lparr>r_idx = Suc 0, r_entity = ''ali'', r_amounts = [Some 200], r_week = Str ''Week 2''\<rparr>]
     [(''Ali'', 10)]
   = two_spellings_results None"
  by (simp add: legacy_results_def spellings_weekly spellings_totals spellings_legacy_scopes
        unique_def two_spellings_results_def)

text \<open>
  Claim C4 fails on the code. A table lists one dispatcher as \<^verbatim>\<open>ALI\<close> with 100 before
  the first marker and as \<^verbatim>\<open>ali\<close> with 200 in week 2, and the configuration has the key
  \<^verbatim>\<open>Ali\<close>. Both spellings are stored under the key \<^verbatim>\<open>Ali\<close>, the later one replacing the
  earlier: the weeks list Ali with 100 and with 200, which sum to 300, and the overall
  dict lists Ali with 200.
\<close>

theorem sum_invariant_broken_by_spellings:
  "snd (snd (process_category (caller_store two_spellings_table) 0 dispatcher_category ali_config))
     = Inr (two_spellings_results (Some ''Ali''))
   \<and> process_excel_file two_spellings_table [(''Ali'', 10)] = Inr (two_spellings_results None)
   \<and> listed_total (overall (two_spellings_results n)) ''Ali'' = 200
   \<and> weekly_sum (two_spellings_results n) ''Ali'' = 300"
proof -
  have "listed_total (overall (two_spellings_results n)) ''Ali'' = 200"
    by (simp add: listed_total_def two_spellings_results_def week_entry_def)
  moreover have "weekly_sum (two_spellings_results n) ''Ali'' = 300"
    by (simp add: weekly_sum_def listed_total_def two_spellings_results_def week_entry_def)
  ultimately show ?thesis
    by (simp only: spellings_universal spellings_grouped spellings_legacy spellings_legacy_results
          simp_thms)
qed


section \<open>Configuration validation\<close>

lemma float_range_iff:
  "(\<not> pf_less x 0 \<and> \<not> pf_greater x 100)
     = (x = NotANumber \<or> (\<exists>r. x = Fin r \<and> 0 \<le> r \<and> r \<le> 100))"
  by (cases x) auto

lemma py_float_error: "py_float v = Inl e \<Longrightarrow> e = ValueError \<or> e = TypeError"
  by (cases v) (auto simp: float_of_string_def Let_def split: if_splits option.splits sum.splits
                     dest: parse_decimal_error)

lemma dispatcher_items_ok_iff:
  "dispatcher_items_ok cfg
     = (\<forall>(k, s) \<in> set cfg. \<exists>d v x. s = PDict d
          \<and> map_of d ''type'' = Some (PStr ''percentage'') \<and> map_of d ''value'' = Some v
          \<and> py_float v = Inr x \<and> \<not> pf_less x 0 \<and> \<not> pf_greater x 100)"
proof (induction cfg)
  case Nil
  then show ?case by simp
next
  case (Cons p cfg)
  obtain k s where p: "p = (k, s)" by (cases p)
  show ?case
    unfolding p
    by (cases s) (auto simp: Cons.IH split: option.splits sum.splits)
qed

text \<open>Saving is all or nothing.\<close>

lemma validate_and_save_rejected:
  "\<not> validate_config category cfg \<Longrightarrow> validate_and_save cm category cfg = (cm, False)"
  by (simp add: validate_and_save_def)

lemma validate_and_save_accepted:
  assumes "validate_config category cfg"
  shows "validate_and_save cm category cfg = (set_category_config cm category cfg, True)"
    and "map_of (cm_config (set_category_config cm category cfg)) (get_category_id category) = Some cfg"
    and "k \<noteq> get_category_id category \<Longrightarrow>
           map_of (cm_config (set_category_config cm category cfg)) k = map_of (cm_config cm) k"
    and "cm_file (set_category_config cm category cfg) = cm_config (set_category_config cm category cfg)"
  using assms
  by (simp_all add: validate_and_save_def set_category_config_def save_config_def update_conv')

lemma dispatcher_validate_config_iff:
  assumes "category_class category = DispatcherAnalysis"
  shows "validate_config category cfg
     = (cfg \<noteq> [] \<and> (\<forall>(k, s) \<in> set cfg. \<exists>d v x. s = PDict d
          \<and> map_of d ''type'' = Some (PStr ''percentage'') \<and> map_of d ''value'' = Some v
          \<and> py_float v = Inr x
          \<and> (x = NotANumber \<or> (\<exists>r. x = Fin r \<and> 0 \<le> r \<and> r \<le> 100))))"
  using assms
  by (simp add: validate_config_def dispatcher_items_ok_iff float_range_iff)

text \<open>
  Claim C8 fails on the code. A dispatcher configuration whose percentage is the float
  NaN, which the text \<^verbatim>\<open>Ali: nan\<close> parses to, passes \<^verbatim>\<open>validate_config\<close>, since NaN is
  neither below 0 nor above 100: \<^verbatim>\<open>validate_and_save\<close> returns true and writes it to the
  configuration and to the file, although NaN is no number between 0 and 100. Apart
  from NaN the claim holds (\<open>dispatcher_validate_config_iff\<close>,
  \<open>validate_and_save_rejected\<close>, \<open>validate_and_save_accepted\<close>).
\<close>

theorem nan_percentage_saved:
  "validate_and_save empty_manager dispatcher_category nan_config
     = (\<lparr>cm_config = [(''dispatcher_earnings'', nan_config)],
         cm_file = [(''dispatcher_earnings'', nan_config)]\<rparr>, True)
   \<and> map_of nan_config ''Ali''
       = Some (PDict [(''type'', PStr ''percentage''), (''value'', PNum NotANumber)])
   \<and> py_float (PNum NotANumber) = Inr NotANumber
   \<and> NotANumber \<notin> Fin ` {0 .. 100}"
proof -
  have v: "validate_config dispatcher_category nan_config"
    by (simp add: validate_config_def dispatcher_category_def nan_config_def)
  have i: "get_category_id dispatcher_category = ''dispatcher_earnings''"
    by (simp add: get_category_id_def dispatcher_category_def lower_def lower_char_def)
  have "validate_and_save empty_manager dispatcher_category nan_config
     = (\<lparr>cm_config = [(''dispatcher_earnings'', nan_config)],
         cm_file = [(''dispatcher_earnings'', nan_config)]\<rparr>, True)"
    using v by (simp add: validate_and_save_def set_category_config_def save_config_def i
                  empty_manager_def)
  moreover have "map_of nan_config ''Ali''
       = Some (PDict [(''type'', PStr ''percentage''), (''value'', PNum NotANumber)])"
    by (simp add: nan_config_def)
  moreover have "NotANumber \<notin> Fin ` {0 .. 100}" by auto
  ultimately show ?thesis by simp
qed


end
